theory Spec2Isabelle
  imports Complex_Main
begin

section \<open>JavaScript values\<close>

text \<open>
  This theory models the CPA rules engine of the integration service
  (\<open>src/cpa-engine.js\<close>, class \<open>CPARulesEngine\<close>): the tiered configuration lookup
  \<open>getConfiguration\<close>, the validation pipeline \<open>validateCPA\<close> and the fraud heuristics
  \<open>detectFraud\<close>. What the engine takes from outside (the clock, the remote cache, the
  configuration service) is an argument of the model; what it sends out (requests, log
  lines, cache-hit counters) is part of the result.
\<close>

text \<open>
  A JavaScript number is a rational, one of the two infinities, or NaN. Arithmetic is
  exact: rounding to binary64 and the sign of zero are not modelled. The engine compares
  numbers, doubles one, and divides by a divisor it has checked to be positive.
\<close>

datatype jsnum = NaN | NegInf | Fin rat | PosInf

text \<open>The relational operators: every comparison with NaN is false.\<close>

fun num_lt :: "jsnum \<Rightarrow> jsnum \<Rightarrow> bool" where
  "num_lt NaN _ = False"
| "num_lt _ NaN = False"
| "num_lt NegInf NegInf = False"
| "num_lt NegInf _ = True"
| "num_lt (Fin a) (Fin b) = (a < b)"
| "num_lt (Fin a) PosInf = True"
| "num_lt (Fin a) NegInf = False"
| "num_lt PosInf _ = False"

definition num_gt :: "jsnum \<Rightarrow> jsnum \<Rightarrow> bool" where
  "num_gt a b = num_lt b a"

definition num_ge :: "jsnum \<Rightarrow> jsnum \<Rightarrow> bool" where
  "num_ge a b = (a \<noteq> NaN \<and> b \<noteq> NaN \<and> \<not> num_lt a b)"

definition num_le :: "jsnum \<Rightarrow> jsnum \<Rightarrow> bool" where
  "num_le a b = (a \<noteq> NaN \<and> b \<noteq> NaN \<and> \<not> num_lt b a)"

text \<open>\<open>x * 2\<close>\<close>

fun num_double :: "jsnum \<Rightarrow> jsnum" where
  "num_double (Fin a) = Fin (a * 2)"
| "num_double x = x"

text \<open>\<open>x / y\<close>; a zero divisor is taken as \<open>+0\<close>.\<close>

fun num_div :: "jsnum \<Rightarrow> jsnum \<Rightarrow> jsnum" where
  "num_div NaN _ = NaN"
| "num_div _ NaN = NaN"
| "num_div (Fin a) (Fin b) =
     (if b = 0 then (if a = 0 then NaN else if 0 < a then PosInf else NegInf)
      else Fin (a / b))"
| "num_div (Fin a) _ = Fin 0"
| "num_div PosInf (Fin b) = (if b < 0 then NegInf else PosInf)"
| "num_div NegInf (Fin b) = (if b < 0 then PosInf else NegInf)"
| "num_div _ _ = NaN"

text \<open>
  The values a configuration can hold: what \<open>parseFloat\<close>, \<open>parseInt\<close>, the
  comparison with \<open>'true'\<close> and \<open>JSON.parse\<close> produce, and raw strings. \<open>VNull\<close> is
  \<open>null\<close>, which \<open>getConfiguration\<close> also returns for a key it could not resolve;
  \<open>VUndefined\<close> is what reading a property that was never set gives.
\<close>

datatype jsval =
    VNull
  | VUndefined
  | VBool bool
  | VNum jsnum
  | VStr string
  | VArr "jsval list"
  | VObj "(string \<times> jsval) list"

subsection \<open>Numeric literals in strings\<close>

text \<open>
  Strings are byte strings; the white space \<open>parseInt\<close>, \<open>parseFloat\<close> and the
  conversion of a string to a number strip is TAB, LF, VT, FF, CR and SP.
\<close>

definition is_space :: "char \<Rightarrow> bool" where
  "is_space c = (of_char c \<in> {9, 10, 11, 12, 13, 32 :: nat})"

definition digit_of :: "char \<Rightarrow> nat" where
  "digit_of c =
     (let n = (of_char c :: nat) in
      if 48 \<le> n \<and> n \<le> 57 then n - 48
      else if 97 \<le> n \<and> n \<le> 122 then n - 87
      else if 65 \<le> n \<and> n \<le> 90 then n - 55
      else 36)"

definition is_digit :: "nat \<Rightarrow> char \<Rightarrow> bool" where
  "is_digit radix c = (digit_of c < radix)"

definition digits_value :: "nat \<Rightarrow> string \<Rightarrow> nat" where
  "digits_value radix Z = foldl (\<lambda>acc c. acc * radix + digit_of c) 0 Z"

definition has_prefix :: "string \<Rightarrow> string \<Rightarrow> bool" where
  "has_prefix p s = (take (length p) s = p)"

text \<open>
  \<open>parseInt(string)\<close> without a radix: leading white space, a sign, \<open>0x\<close> or \<open>0X\<close> for
  radix 16, then the longest run of digits; NaN when that run is empty.
\<close>

definition parseInt :: "string \<Rightarrow> jsnum" where
  "parseInt inputString =
     (let S = dropWhile is_space inputString;
          sign = (if has_prefix ''-'' S then - 1 else 1 :: int);
          S1 = (if has_prefix ''+'' S \<or> has_prefix ''-'' S then tl S else S);
          hex = (has_prefix ''0x'' S1 \<or> has_prefix ''0X'' S1);
          R = (if hex then 16 else 10);
          S2 = (if hex then drop 2 S1 else S1);
          Z = takeWhile (is_digit R) S2
      in if Z = [] then NaN else Fin (of_int (sign * int (digits_value R Z))))"

text \<open>\<open>m * 10 ^ e\<close> for an exponent of either sign.\<close>

definition scale10 :: "rat \<Rightarrow> int \<Rightarrow> rat" where
  "scale10 m e = (if 0 \<le> e then m * 10 ^ nat e else m / 10 ^ nat (- e))"

text \<open>
  The exponent part of a decimal literal at the head of a string: \<open>e\<close> or \<open>E\<close>, a
  sign, at least one digit. Returns the exponent and what follows it, or exponent 0
  and the string itself when there is no complete exponent part.
\<close>

definition exponent_part :: "string \<Rightarrow> int \<times> string" where
  "exponent_part s =
     (if has_prefix ''e'' s \<or> has_prefix ''E'' s then
        (let t = tl s;
             neg = has_prefix ''-'' t;
             u = (if has_prefix ''+'' t \<or> has_prefix ''-'' t then tl t else t);
             ds = takeWhile (is_digit 10) u
         in if ds = [] then (0, s)
            else ((if neg then - int (digits_value 10 ds) else int (digits_value 10 ds)),
                  dropWhile (is_digit 10) u))
      else (0, s))"

text \<open>
  The longest prefix of a string that is an unsigned decimal literal (\<open>Infinity\<close>,
  \<open>12\<close>, \<open>12.\<close>, \<open>12.5\<close>, \<open>.5\<close>, each of the last four with an optional exponent), with
  its value and the rest of the string; \<open>None\<close> when no prefix is one.
\<close>

definition unsigned_decimal :: "string \<Rightarrow> (jsnum \<times> string) option" where
  "unsigned_decimal s =
     (if has_prefix ''Infinity'' s then Some (PosInf, drop 8 s)
      else
        (let ip = takeWhile (is_digit 10) s;
             r1 = dropWhile (is_digit 10) s;
             dot = has_prefix ''.'' r1;
             fp = (if dot then takeWhile (is_digit 10) (tl r1) else []);
             r2 = (if dot then dropWhile (is_digit 10) (tl r1) else r1)
         in if ip = [] \<and> fp = [] then None
            else
              (let (e, r3) = exponent_part r2;
                   m = of_nat (digits_value 10 ip)
                       + of_nat (digits_value 10 fp) / 10 ^ length fp
               in Some (Fin (scale10 m e), r3))))"

fun num_neg :: "jsnum \<Rightarrow> jsnum" where
  "num_neg (Fin a) = Fin (- a)"
| "num_neg PosInf = NegInf"
| "num_neg NegInf = PosInf"
| "num_neg NaN = NaN"

definition signed_decimal :: "string \<Rightarrow> (jsnum \<times> string) option" where
  "signed_decimal s =
     (if has_prefix ''-'' s then map_option (\<lambda>(v, r). (num_neg v, r)) (unsigned_decimal (tl s))
      else if has_prefix ''+'' s then unsigned_decimal (tl s)
      else unsigned_decimal s)"

text \<open>\<open>parseFloat(string)\<close>: leading white space, then the longest decimal literal.\<close>

definition parseFloat :: "string \<Rightarrow> jsnum" where
  "parseFloat inputString =
     (case signed_decimal (dropWhile is_space inputString) of
        None \<Rightarrow> NaN
      | Some (v, _) \<Rightarrow> v)"

text \<open>
  The number a string converts to when it is compared with a number: white space
  stripped at both ends, the empty string 0, a decimal literal or an unsigned
  \<open>0x\<close>, \<open>0o\<close> or \<open>0b\<close> integer taking the whole string, NaN otherwise.
\<close>

definition radix_literal :: "nat \<Rightarrow> string \<Rightarrow> jsnum" where
  "radix_literal radix ds =
     (if ds \<noteq> [] \<and> list_all (is_digit radix) ds then Fin (of_nat (digits_value radix ds))
      else NaN)"

definition StringToNumber :: "string \<Rightarrow> jsnum" where
  "StringToNumber str =
     (let t = rev (dropWhile is_space (rev (dropWhile is_space str))) in
      if t = [] then Fin 0
      else if has_prefix ''0x'' t \<or> has_prefix ''0X'' t then radix_literal 16 (drop 2 t)
      else if has_prefix ''0o'' t \<or> has_prefix ''0O'' t then radix_literal 8 (drop 2 t)
      else if has_prefix ''0b'' t \<or> has_prefix ''0B'' t then radix_literal 2 (drop 2 t)
      else (case signed_decimal t of
              Some (v, []) \<Rightarrow> v
            | _ \<Rightarrow> NaN))"

text \<open>
  \<open>ToNumber\<close>, as the relational operators apply it to an operand that is compared
  with a number, where the conversion to a primitive does not throw. An object becomes
  \<open>[object Object]\<close> first and an array its elements joined by commas, so only an array
  of at most one element can be a number.
\<close>

fun ToNumber :: "jsval \<Rightarrow> jsnum" where
  "ToNumber VNull = Fin 0"
| "ToNumber VUndefined = NaN"
| "ToNumber (VBool b) = (if b then Fin 1 else Fin 0)"
| "ToNumber (VNum n) = n"
| "ToNumber (VStr s) = StringToNumber s"
| "ToNumber (VObj _) = NaN"
| "ToNumber (VArr []) = Fin 0"
| "ToNumber (VArr [VBool _]) = NaN"
| "ToNumber (VArr [VUndefined]) = Fin 0"
| "ToNumber (VArr [x]) = ToNumber x"
| "ToNumber (VArr _) = NaN"

text \<open>\<open>if (v)\<close>: the values that count as true.\<close>

fun truthy :: "jsval \<Rightarrow> bool" where
  "truthy VNull = False"
| "truthy VUndefined = False"
| "truthy (VBool b) = b"
| "truthy (VNum n) = (n \<noteq> NaN \<and> n \<noteq> Fin 0)"
| "truthy (VStr s) = (s \<noteq> [])"
| "truthy (VArr _) = True"
| "truthy (VObj _) = True"

text \<open>
  Converting an object to a primitive throws a TypeError when neither its \<open>valueOf\<close>
  nor its \<open>toString\<close> yields one. For a value that came out of \<open>JSON.parse\<close> that is
  an object with a property \<open>toString\<close> of its own (which hides the inherited method
  and is not a function), or an array with such an element, since joining an array
  converts each element to a string.
\<close>

fun ToPrimitive_throws :: "jsval \<Rightarrow> bool" where
  "ToPrimitive_throws (VObj props) = (''toString'' \<in> set (map fst props))"
| "ToPrimitive_throws (VArr xs) = list_ex ToPrimitive_throws xs"
| "ToPrimitive_throws _ = False"

section \<open>Fraud heuristics\<close>

text \<open>
  The object \<open>detectFraud\<close> destructures. The three amounts are numbers, as the HTTP
  layer has checked. \<open>registrationDate\<close> is held as the time value
  \<open>new Date(registrationDate).getTime()\<close> in milliseconds, \<open>None\<close> for an invalid date
  (where \<open>getTime()\<close> is NaN). \<open>affiliateId\<close> and \<open>userId\<close> are any value of the
  request body: the HTTP layer checks that they are present, not what they are.
\<close>

record activity =
  depositAmount :: jsnum
  betCount :: jsnum
  ggrAmount :: jsnum
  registrationDate :: "int option"
  affiliateId :: jsval
  userId :: jsval

text \<open>
  \<open>Math.floor((now - registrationTime) / (1000 * 60 * 60 * 24))\<close>, with \<open>now\<close> the
  reading of \<open>Date.now()\<close>.
\<close>

definition days_between :: "int \<Rightarrow> int option \<Rightarrow> jsnum" where
  "days_between now reg =
     (case reg of None \<Rightarrow> NaN
      | Some registrationTime \<Rightarrow>
          Fin (of_int ((now - registrationTime) div (1000 * 60 * 60 * 24))))"

text \<open>
  One constructor for each description pushed on \<open>suspiciousPatterns\<close>, carrying the
  values the template interpolates.
\<close>

datatype pattern =
    HighDepositFewBets
  | VeryNegativeGGR jsnum
  | HighActivityNewAccount jsnum jsnum
  | HighAverageBet jsnum
  | HighGGRForDeposit jsnum jsnum

datatype fraud_message = FraudDetected "pattern list" | NoSuspiciousPattern

record fraud_result =
  valid :: bool
  message :: fraud_message

definition avgBetAmount :: "'a activity_scheme \<Rightarrow> jsnum" where
  "avgBetAmount inp =
     (if num_gt (betCount inp) (Fin 0) then num_div (depositAmount inp) (betCount inp)
      else Fin 0)"

definition suspiciousPatterns :: "int \<Rightarrow> 'a activity_scheme \<Rightarrow> pattern list" where
  "suspiciousPatterns now inp =
     (let daysSinceRegistration = days_between now (registrationDate inp) in
      (if num_gt (depositAmount inp) (Fin 1000) \<and> num_lt (betCount inp) (Fin 5)
       then [HighDepositFewBets] else [])
      @ (if num_lt (ggrAmount inp) (Fin (- 500))
         then [VeryNegativeGGR (ggrAmount inp)] else [])
      @ (if num_lt daysSinceRegistration (Fin 1) \<and> num_gt (betCount inp) (Fin 50)
         then [HighActivityNewAccount (betCount inp) daysSinceRegistration] else [])
      @ (if num_gt (avgBetAmount inp) (Fin 200)
         then [HighAverageBet (avgBetAmount inp)] else [])
      @ (if num_gt (ggrAmount inp) (num_double (depositAmount inp))
         then [HighGGRForDeposit (ggrAmount inp) (depositAmount inp)] else []))"

text \<open>
  \<open>detectFraud\<close>. Its own \<open>try\<close> has no branch here: with numbers for the three
  amounts nothing in it throws.
\<close>

definition detectFraud :: "int \<Rightarrow> 'a activity_scheme \<Rightarrow> fraud_result" where
  "detectFraud now inp =
     (if length (suspiciousPatterns now inp) > 0
      then \<lparr>valid = False, message = FraudDetected (suspiciousPatterns now inp)\<rparr>
      else \<lparr>valid = True, message = NoSuspiciousPattern\<rparr>)"

section \<open>The configuration cache\<close>

type_synonym key = string

record cache_entry =
  entry_value :: jsval
  timestamp :: int

text \<open>
  The engine's own state: the \<open>Map\<close> \<open>this.cache\<close> and \<open>this.cacheTTL\<close> (milliseconds).
\<close>

record engine =
  cache :: "key \<rightharpoonup> cache_entry"
  cacheTTL :: int

text \<open>
  What the outside world does during one call of \<open>getConfiguration\<close>. A call to a
  collaborator either throws (with the error's message) or returns.
\<close>

datatype 'a reply = Throws string | Returns 'a

text \<open>The \<open>data\<close> object of an origin response, and the response body.\<close>

record config =
  raw_value :: string
  data_type :: string

record origin_response =
  success :: bool
  data :: "config option"

text \<open>
  \<^item> \<open>now_lookup\<close>: \<open>Date.now()\<close> where the local entry's age is tested;
  \<^item> \<open>redis_open_read\<close>, \<open>redis_open_write\<close>: \<open>this.redisClient && this.redisClient.isOpen\<close>
    before the read and before the write;
  \<^item> \<open>redis_get\<close>: the reply of \<open>redisClient.get\<close>, \<open>None\<close> for \<open>null\<close>;
  \<^item> \<open>origin_get\<close>: the reply of \<open>axios.get\<close>;
  \<^item> \<open>now_store\<close>: \<open>Date.now()\<close> where a new local entry is stamped;
  \<^item> \<open>redis_setEx\<close>: the reply of \<open>redisClient.setEx\<close>.
\<close>

record env =
  now_lookup :: int
  redis_open_read :: bool
  redis_get :: "string option reply"
  origin_get :: "origin_response reply"
  now_store :: int
  redis_open_write :: bool
  redis_setEx :: "unit reply"

text \<open>
  The text written to the remote tier, named by the conversion that produces it:
  \<open>JSON.stringify(value)\<close> or \<open>String(value)\<close>.
\<close>

datatype cache_text = JSON_stringify jsval | String_of jsval

text \<open>The requests that leave the process, in the order they are made.\<close>

datatype io_event =
    RedisGet string
  | OriginGet key
  | RedisSetEx string nat cache_text

datatype log_line = Warn string | Error string

datatype hit_type = hit_local | hit_redis | hit_config_service | hit_error

record effects =
  engine_after :: engine
  io :: "io_event list"
  logged :: "log_line list"
  hits :: "hit_type list"

text \<open>How the \<open>try\<close> block of \<open>getConfiguration\<close> ends.\<close>

datatype completion = Thrown string | Returned jsval | FellThrough

record attempt = effects +
  completion :: completion

record get_result = effects +
  ret :: jsval

text \<open>
  \<open>JSON.parse\<close> belongs to the runtime and is a parameter of the model: a function
  from the text to the parsed value, \<open>None\<close> where \<open>JSON.parse\<close> throws a SyntaxError.
\<close>

type_synonym json_parser = "string \<Rightarrow> jsval option"

definition redis_key :: "key \<Rightarrow> string" where
  "redis_key key = ''config_cache:'' @ key"

text \<open>The local tier: the entry is used when \<open>Date.now() - timestamp < cacheTTL\<close>.\<close>

definition local_lookup :: "engine \<Rightarrow> key \<Rightarrow> int \<Rightarrow> jsval option" where
  "local_lookup st key now =
     (case cache st key of
        None \<Rightarrow> None
      | Some localCached \<Rightarrow>
          if now - timestamp localCached < cacheTTL st then Some (entry_value localCached)
          else None)"

text \<open>
  The remote tier, with its own \<open>try\<close>: a throw of \<open>redisClient.get\<close> is logged and
  the lookup goes on as after a miss. A reply that is \<open>null\<close> or the empty string is a
  miss. The text of a hit goes through \<open>JSON.parse\<close>, and stays as it is where that
  throws.
\<close>

definition redis_lookup ::
  "json_parser \<Rightarrow> env \<Rightarrow> key \<Rightarrow> jsval option \<times> io_event list \<times> log_line list" where
  "redis_lookup JSON_parse e key =
     (if redis_open_read e then
        (case redis_get e of
           Throws msg \<Rightarrow> (None, [RedisGet (redis_key key)], [Warn msg])
         | Returns None \<Rightarrow> (None, [RedisGet (redis_key key)], [])
         | Returns (Some redisCached) \<Rightarrow>
             if redisCached = [] then (None, [RedisGet (redis_key key)], [])
             else
               (Some (case JSON_parse redisCached of
                        Some v \<Rightarrow> v
                      | None \<Rightarrow> VStr redisCached),
                [RedisGet (redis_key key)], []))
      else (None, [], []))"

definition toLowerCase :: "string \<Rightarrow> string" where
  "toLowerCase s =
     map (\<lambda>c. if 65 \<le> (of_char c :: nat) \<and> (of_char c :: nat) \<le> 90
              then char_of (of_char c + 32 :: nat) else c) s"

text \<open>
  The \<open>switch\<close> on \<open>config.data_type\<close>. Only \<open>JSON.parse\<close> can throw in it.
\<close>

definition decode :: "json_parser \<Rightarrow> config \<Rightarrow> string + jsval" where
  "decode JSON_parse config =
     (if data_type config = ''float'' then Inr (VNum (parseFloat (raw_value config)))
      else if data_type config = ''int'' then Inr (VNum (parseInt (raw_value config)))
      else if data_type config = ''bool'' then
        Inr (VBool (toLowerCase (raw_value config) = ''true''))
      else if data_type config = ''json'' then
        (case JSON_parse (raw_value config) of
           None \<Rightarrow> Inl ''SyntaxError''
         | Some v \<Rightarrow> Inr v)
      else Inr (VStr (raw_value config)))"

definition cacheValue :: "jsval \<Rightarrow> cache_text" where
  "cacheValue v =
     (case v of
        VNull \<Rightarrow> JSON_stringify v
      | VArr _ \<Rightarrow> JSON_stringify v
      | VObj _ \<Rightarrow> JSON_stringify v
      | _ \<Rightarrow> String_of v)"

text \<open>
  The write to the remote tier after an origin hit, with its own \<open>try\<close>: a throw of
  \<open>redisClient.setEx\<close> is logged and nothing else.
\<close>

definition redis_store :: "env \<Rightarrow> key \<Rightarrow> jsval \<Rightarrow> io_event list \<times> log_line list" where
  "redis_store e key v =
     (if redis_open_write e then
        ([RedisSetEx (redis_key key) 3600 (cacheValue v)],
         (case redis_setEx e of Throws msg \<Rightarrow> [Warn msg] | Returns _ \<Rightarrow> []))
      else ([], []))"

text \<open>
  The origin step: what follows the two cache tiers inside the \<open>try\<close>. \<open>evs\<close> and
  \<open>lg\<close> are the requests and log lines of the remote lookup before it.
\<close>

definition origin_fetch ::
  "json_parser \<Rightarrow> engine \<Rightarrow> key \<Rightarrow> env \<Rightarrow> io_event list \<Rightarrow> log_line list \<Rightarrow> attempt" where
  "origin_fetch JSON_parse st key e evs lg =
     (let failed = (\<lambda>msg. \<lparr>engine_after = st, io = evs @ [OriginGet key], logged = lg,
                            hits = [], completion = Thrown msg\<rparr>) in
      case origin_get e of
        Throws msg \<Rightarrow> failed msg
      | Returns response \<Rightarrow>
          if success response then
            (case data response of
               None \<Rightarrow> failed ''TypeError''
             | Some config \<Rightarrow>
                 (case decode JSON_parse config of
                    Inl msg \<Rightarrow> failed msg
                  | Inr v \<Rightarrow>
                      (let (wr, wl) = redis_store e key v in
                       \<lparr>engine_after =
                          st\<lparr>cache := (cache st)(key \<mapsto>
                                \<lparr>entry_value = v, timestamp = now_store e\<rparr>)\<rparr>,
                        io = evs @ [OriginGet key] @ wr,
                        logged = lg @ wl,
                        hits = [hit_config_service],
                        completion = Returned v\<rparr>)))
          else \<lparr>engine_after = st, io = evs @ [OriginGet key], logged = lg,
                hits = [], completion = FellThrough\<rparr>)"

text \<open>The \<open>try\<close> block of \<open>getConfiguration\<close>.\<close>

definition getConfiguration_try :: "json_parser \<Rightarrow> engine \<Rightarrow> key \<Rightarrow> env \<Rightarrow> attempt" where
  "getConfiguration_try JSON_parse st key e =
     (case local_lookup st key (now_lookup e) of
        Some v \<Rightarrow>
          \<lparr>engine_after = st, io = [], logged = [], hits = [hit_local],
           completion = Returned v\<rparr>
      | None \<Rightarrow>
          (case redis_lookup JSON_parse e key of
             (Some v, evs, lg) \<Rightarrow>
               \<lparr>engine_after =
                  st\<lparr>cache := (cache st)(key \<mapsto>
                        \<lparr>entry_value = v, timestamp = now_store e\<rparr>)\<rparr>,
                io = evs, logged = lg, hits = [hit_redis], completion = Returned v\<rparr>
           | (None, evs, lg) \<Rightarrow> origin_fetch JSON_parse st key e evs lg))"

text \<open>
  \<open>getConfiguration\<close>: the \<open>try\<close> block, its \<open>catch\<close> (log, count, go on) and the
  \<open>return null\<close> after both.
\<close>

definition getConfiguration :: "json_parser \<Rightarrow> engine \<Rightarrow> key \<Rightarrow> env \<Rightarrow> get_result" where
  "getConfiguration JSON_parse st key e =
     (let a = getConfiguration_try JSON_parse st key e in
      case completion a of
        Returned v \<Rightarrow>
          \<lparr>engine_after = engine_after a, io = io a, logged = logged a, hits = hits a,
           ret = v\<rparr>
      | FellThrough \<Rightarrow>
          \<lparr>engine_after = engine_after a, io = io a, logged = logged a, hits = hits a,
           ret = VNull\<rparr>
      | Thrown msg \<Rightarrow>
          \<lparr>engine_after = engine_after a, io = io a, logged = logged a @ [Error msg],
           hits = hits a @ [hit_error], ret = VNull\<rparr>)"

section \<open>The rule evaluator\<close>

text \<open>
  The request \<open>validateCPA\<close> destructures: the fields of \<open>activity\<close> and
  \<open>validationOption\<close>, a string, or \<open>None\<close> where the request has none and the
  default \<open>'opcao1'\<close> applies.
\<close>

record request = activity +
  validationOption :: "string option"

definition option_of :: "request \<Rightarrow> string" where
  "option_of req = (case validationOption req of None \<Rightarrow> ''opcao1'' | Some v \<Rightarrow> v)"

definition key_deposito_minimo :: "string \<Rightarrow> key" where
  "key_deposito_minimo opt = ''cpa.validacao.'' @ opt @ ''.deposito_minimo''"

definition key_numero_apostas :: "string \<Rightarrow> key" where
  "key_numero_apostas opt = ''cpa.validacao.'' @ opt @ ''.numero_apostas''"

definition key_ggr_minimo :: "string \<Rightarrow> key" where
  "key_ggr_minimo opt = ''cpa.validacao.'' @ opt @ ''.ggr_minimo''"

definition key_prazo_dias :: key where
  "key_prazo_dias = ''cpa.validacao.prazo_dias''"

definition key_timezone :: key where
  "key_timezone = ''cpa.validacao.timezone''"

definition key_deteccao_fraude_ativa :: key where
  "key_deteccao_fraude_ativa = ''cpa.validacao.deteccao_fraude_ativa''"

definition configKeys :: "string \<Rightarrow> key list" where
  "configKeys opt =
     [key_deposito_minimo opt, key_numero_apostas opt, key_ggr_minimo opt,
      key_prazo_dias, key_timezone, key_deteccao_fraude_ativa]"

text \<open>
  The loop that fills \<open>configs\<close>. The lookup is a parameter, a function that may throw
  (\<open>Inl\<close> the message), so that the \<open>catch\<close> of \<open>validateCPA\<close> has something to catch; a
  throw leaves the loop at once.
\<close>

type_synonym getter = "key \<Rightarrow> engine \<Rightarrow> (string + jsval) \<times> engine"

fun load_configs ::
  "getter \<Rightarrow> key list \<Rightarrow> engine \<Rightarrow> (key \<rightharpoonup> jsval) \<Rightarrow> (string + (key \<rightharpoonup> jsval)) \<times> engine" where
  "load_configs get [] st configs = (Inr configs, st)"
| "load_configs get (k # ks) st configs =
     (case get k st of
        (Inl msg, st') \<Rightarrow> (Inl msg, st')
      | (Inr v, st') \<Rightarrow> load_configs get ks st' (configs(k \<mapsto> v)))"

text \<open>\<open>configs[k]\<close>\<close>

definition config_at :: "(key \<rightharpoonup> jsval) \<Rightarrow> key \<Rightarrow> jsval" where
  "config_at configs k = (case configs k of None \<Rightarrow> VUndefined | Some v \<Rightarrow> v)"

text \<open>
  \<open>x >= v\<close> and \<open>x <= v\<close> for a number \<open>x\<close> and any value \<open>v\<close>: a TypeError
  (\<open>Inl\<close> its message) where \<open>v\<close> cannot be converted to a primitive.
\<close>

definition TypeError_primitive :: string where
  "TypeError_primitive = ''Cannot convert object to primitive value''"

definition js_ge :: "jsnum \<Rightarrow> jsval \<Rightarrow> string + bool" where
  "js_ge x v =
     (if ToPrimitive_throws v then Inl TypeError_primitive else Inr (num_ge x (ToNumber v)))"

definition js_le :: "jsnum \<Rightarrow> jsval \<Rightarrow> string + bool" where
  "js_le x v =
     (if ToPrimitive_throws v then Inl TypeError_primitive else Inr (num_le x (ToNumber v)))"

text \<open>
  The readings of \<open>Date.now()\<close> that a validation depends on: in \<open>validationId\<close>, in the
  eligibility window, and inside \<open>detectFraud\<close>.
\<close>

record clock =
  now_id :: int
  now_window :: int
  now_fraud :: int

text \<open>
  The line pushed on \<open>rulesApplied\<close>, as the values its template interpolates: the
  amount, the verdict and the threshold.
\<close>

datatype rule_message =
    DepositRule jsnum bool jsval
  | BetsRule jsnum bool jsval
  | GGRRule jsnum bool jsval
  | PrazoRule jsnum bool jsval
  | FraudRule fraud_message

text \<open>
  The five validations. Each gives the entries it pushes on \<open>results\<close> and
  \<open>rulesApplied\<close>, as pairs: one entry, or none when its guard is false; or the
  message of the TypeError its comparison throws. (The template of the line converts
  the threshold to a string after the comparison, and throws for no other threshold.)
\<close>

definition validacao_deposito ::
  "(key \<rightharpoonup> jsval) \<Rightarrow> request \<Rightarrow> string + (bool \<times> rule_message) list" where
  "validacao_deposito configs req =
     (let minDeposit = config_at configs (key_deposito_minimo (option_of req)) in
      if minDeposit \<noteq> VNull then
        (case js_ge (depositAmount req) minDeposit of
           Inl msg \<Rightarrow> Inl msg
         | Inr passed \<Rightarrow> Inr [(passed, DepositRule (depositAmount req) passed minDeposit)])
      else Inr [])"

definition validacao_apostas ::
  "(key \<rightharpoonup> jsval) \<Rightarrow> request \<Rightarrow> string + (bool \<times> rule_message) list" where
  "validacao_apostas configs req =
     (let minBets = config_at configs (key_numero_apostas (option_of req)) in
      if minBets \<noteq> VNull then
        (case js_ge (betCount req) minBets of
           Inl msg \<Rightarrow> Inl msg
         | Inr passed \<Rightarrow> Inr [(passed, BetsRule (betCount req) passed minBets)])
      else Inr [])"

definition validacao_ggr ::
  "(key \<rightharpoonup> jsval) \<Rightarrow> request \<Rightarrow> string + (bool \<times> rule_message) list" where
  "validacao_ggr configs req =
     (let minGGR = config_at configs (key_ggr_minimo (option_of req)) in
      if minGGR \<noteq> VNull then
        (case js_ge (ggrAmount req) minGGR of
           Inl msg \<Rightarrow> Inl msg
         | Inr passed \<Rightarrow> Inr [(passed, GGRRule (ggrAmount req) passed minGGR)])
      else Inr [])"

definition validacao_prazo ::
  "(key \<rightharpoonup> jsval) \<Rightarrow> request \<Rightarrow> clock \<Rightarrow> string + (bool \<times> rule_message) list" where
  "validacao_prazo configs req clk =
     (let maxDays = config_at configs key_prazo_dias in
      if maxDays \<noteq> VNull then
        (let daysDiff = days_between (now_window clk) (registrationDate req) in
         case js_le daysDiff maxDays of
           Inl msg \<Rightarrow> Inl msg
         | Inr passed \<Rightarrow> Inr [(passed, PrazoRule daysDiff passed maxDays)])
      else Inr [])"

definition validacao_fraude ::
  "(key \<rightharpoonup> jsval) \<Rightarrow> request \<Rightarrow> clock \<Rightarrow> string + (bool \<times> rule_message) list" where
  "validacao_fraude configs req clk =
     (let fraudDetection = config_at configs key_deteccao_fraude_ativa in
      if truthy fraudDetection then
        (let fraudResult = detectFraud (now_fraud clk) req in
         Inr [(valid fraudResult, FraudRule (message fraudResult))])
      else Inr [])"

text \<open>
  Two steps of the \<open>try\<close> block, one after the other: the entries of both in order,
  or the first throw.
\<close>

fun and_then :: "string + 'a list \<Rightarrow> string + 'a list \<Rightarrow> string + 'a list" where
  "and_then (Inl msg) _ = Inl msg"
| "and_then (Inr xs) (Inl msg) = Inl msg"
| "and_then (Inr xs) (Inr ys) = Inr (xs @ ys)"

definition apply_rules ::
  "(key \<rightharpoonup> jsval) \<Rightarrow> request \<Rightarrow> clock \<Rightarrow> string + (bool \<times> rule_message) list" where
  "apply_rules configs req clk =
     and_then (validacao_deposito configs req)
       (and_then (validacao_apostas configs req)
          (and_then (validacao_ggr configs req)
             (and_then (validacao_prazo configs req clk)
                (validacao_fraude configs req clk))))"

datatype verdict = approved | rejected | error

datatype reason = AllApproved | SomeFailed | ErrorDuring string

text \<open>
  The object \<open>validateCPA\<close> returns, without its timings: \<open>validationId\<close> as the three
  parts of its template, \<open>reason\<close> as the sentence chosen (\<open>ErrorDuring\<close> carries
  \<open>error.message\<close>), \<open>configsUsed\<close> (\<open>None\<close> in the error object, which has no such
  field), \<open>individualResults\<close> and \<open>rulesApplied\<close>.
\<close>

record validation_result =
  validationId :: "jsval \<times> jsval \<times> int"
  result :: verdict
  reason :: reason
  configsUsed :: "(key \<rightharpoonup> jsval) option"
  individualResults :: "(rule_message \<times> bool) list"
  rulesApplied :: "rule_message list"

text \<open>The object the \<open>catch\<close> of \<open>validateCPA\<close> returns.\<close>

definition error_result :: "jsval \<times> jsval \<times> int \<Rightarrow> string \<Rightarrow> validation_result" where
  "error_result vid msg =
     \<lparr>validationId = vid, result = error, reason = ErrorDuring msg,
      configsUsed = None, individualResults = [], rulesApplied = []\<rparr>"

text \<open>
  The \<open>try\<close> statement of \<open>validateCPA\<close>, over a lookup that may throw: the \<open>try\<close>
  block, and the \<open>catch\<close> that turns a throw, of a lookup or of a comparison, into the
  error object. Returns the object and the engine's state.
\<close>

definition validateCPA_try ::
  "getter \<Rightarrow> engine \<Rightarrow> request \<Rightarrow> clock \<Rightarrow> validation_result \<times> engine" where
  "validateCPA_try get st req clk =
     (let vid = (affiliateId req, userId req, now_id clk) in
      case load_configs get (configKeys (option_of req)) st Map.empty of
        (Inl msg, st') \<Rightarrow> (error_result vid msg, st')
      | (Inr configs, st') \<Rightarrow>
          (case apply_rules configs req clk of
             Inl msg \<Rightarrow> (error_result vid msg, st')
           | Inr outcomes \<Rightarrow>
               (let results = map fst outcomes;
                    rules = map snd outcomes;
                    allValid = list_all (\<lambda>r. r) results
                in (\<lparr>validationId = vid,
                      result = (if allValid then approved else rejected),
                      reason = (if allValid then AllApproved else SomeFailed),
                      configsUsed = Some configs,
                      individualResults = zip rules results,
                      rulesApplied = rules\<rparr>, st'))))"

text \<open>
  \<open>validateCPA\<close> over a lookup that may throw. Before the \<open>try\<close> statement it builds
  \<open>validationId\<close> with a template that converts \<open>affiliateId\<close> and \<open>userId\<close> to
  strings; a TypeError there is not caught, and the call raises it (\<open>Inl\<close> its message).
\<close>

definition validateCPA_with ::
  "getter \<Rightarrow> engine \<Rightarrow> request \<Rightarrow> clock \<Rightarrow> string + validation_result \<times> engine" where
  "validateCPA_with get st req clk =
     (if ToPrimitive_throws (affiliateId req) \<or> ToPrimitive_throws (userId req)
      then Inl TypeError_primitive
      else Inr (validateCPA_try get st req clk))"

text \<open>
  \<open>validateCPA\<close> itself looks every key up with \<open>getConfiguration\<close>, which returns in
  every case; \<open>world k\<close> is what the outside world does during the lookup of \<open>k\<close>.
\<close>

definition engine_getter :: "json_parser \<Rightarrow> (key \<Rightarrow> env) \<Rightarrow> getter" where
  "engine_getter JSON_parse world k st =
     (let r = getConfiguration JSON_parse st k (world k) in (Inr (ret r), engine_after r))"

definition validateCPA ::
  "json_parser \<Rightarrow> (key \<Rightarrow> env) \<Rightarrow> engine \<Rightarrow> request \<Rightarrow> clock
     \<Rightarrow> string + validation_result \<times> engine" where
  "validateCPA JSON_parse world st req clk =
     validateCPA_with (engine_getter JSON_parse world) st req clk"

section \<open>Reading a validation\<close>

text \<open>
  The five criteria of \<open>validateCPA\<close>, the configuration key each one reads, and the
  criterion a line of \<open>rulesApplied\<close> belongs to.
\<close>

datatype criterion = Deposit | Bets | GGR | Window | Fraud

fun criterion_key :: "string \<Rightarrow> criterion \<Rightarrow> key" where
  "criterion_key opt Deposit = key_deposito_minimo opt"
| "criterion_key opt Bets = key_numero_apostas opt"
| "criterion_key opt GGR = key_ggr_minimo opt"
| "criterion_key opt Window = key_prazo_dias"
| "criterion_key opt Fraud = key_deteccao_fraude_ativa"

fun criterion_of :: "rule_message \<Rightarrow> criterion" where
  "criterion_of (DepositRule _ _ _) = Deposit"
| "criterion_of (BetsRule _ _ _) = Bets"
| "criterion_of (GGRRule _ _ _) = GGR"
| "criterion_of (PrazoRule _ _ _) = Window"
| "criterion_of (FraudRule _) = Fraud"

text \<open>
  The criteria a validation evaluated: those with a line in \<open>rulesApplied\<close>.
\<close>

definition evaluated :: "validation_result \<Rightarrow> criterion list" where
  "evaluated r = map criterion_of (rulesApplied r)"

definition all_criteria :: "criterion list" where
  "all_criteria = [Deposit, Bets, GGR, Window, Fraud]"

text \<open>
  The guard of each validation: \<open>!== null\<close> on the threshold for the first four, the
  truth of the toggle for the fraud check.
\<close>

fun criterion_guard :: "(key \<rightharpoonup> jsval) \<Rightarrow> request \<Rightarrow> criterion \<Rightarrow> bool" where
  "criterion_guard configs req Fraud = truthy (config_at configs key_deteccao_fraude_ativa)"
| "criterion_guard configs req c =
     (config_at configs (criterion_key (option_of req) c) \<noteq> VNull)"

text \<open>
  The test each validation applies: a criterion passes when the expression that gives
  its \<open>valid\<close> is true, and its comparison throws when the threshold cannot be converted
  to a primitive.
\<close>

fun criterion_passes :: "(key \<rightharpoonup> jsval) \<Rightarrow> request \<Rightarrow> clock \<Rightarrow> criterion \<Rightarrow> bool" where
  "criterion_passes configs req clk Deposit =
     (js_ge (depositAmount req) (config_at configs (key_deposito_minimo (option_of req)))
        = Inr True)"
| "criterion_passes configs req clk Bets =
     (js_ge (betCount req) (config_at configs (key_numero_apostas (option_of req)))
        = Inr True)"
| "criterion_passes configs req clk GGR =
     (js_ge (ggrAmount req) (config_at configs (key_ggr_minimo (option_of req))) = Inr True)"
| "criterion_passes configs req clk Window =
     (js_le (days_between (now_window clk) (registrationDate req))
            (config_at configs key_prazo_dias) = Inr True)"
| "criterion_passes configs req clk Fraud = valid (detectFraud (now_fraud clk) req)"

fun criterion_throws :: "(key \<rightharpoonup> jsval) \<Rightarrow> request \<Rightarrow> criterion \<Rightarrow> bool" where
  "criterion_throws configs req Fraud = False"
| "criterion_throws configs req c =
     ToPrimitive_throws (config_at configs (criterion_key (option_of req) c))"

text \<open>
  Whether the \<open>try\<close> block throws while it applies the rules: some threshold
  criterion is evaluated and its comparison throws.
\<close>

definition rule_throws :: "(key \<rightharpoonup> jsval) \<Rightarrow> request \<Rightarrow> bool" where
  "rule_throws configs req =
     list_ex (\<lambda>c. criterion_guard configs req c \<and> criterion_throws configs req c) all_criteria"

text \<open>
  The entry a criterion contributes to \<open>results\<close> and \<open>rulesApplied\<close> when its
  comparison does not throw: one entry if its guard holds, none otherwise.
\<close>

definition rule_entries ::
  "(key \<rightharpoonup> jsval) \<Rightarrow> request \<Rightarrow> clock \<Rightarrow> criterion \<Rightarrow> (bool \<times> rule_message) list" where
  "rule_entries configs req clk c =
     (if criterion_guard configs req c then
        [(criterion_passes configs req clk c,
          (case c of
             Deposit \<Rightarrow> DepositRule (depositAmount req) (criterion_passes configs req clk c)
                          (config_at configs (key_deposito_minimo (option_of req)))
           | Bets \<Rightarrow> BetsRule (betCount req) (criterion_passes configs req clk c)
                          (config_at configs (key_numero_apostas (option_of req)))
           | GGR \<Rightarrow> GGRRule (ggrAmount req) (criterion_passes configs req clk c)
                          (config_at configs (key_ggr_minimo (option_of req)))
           | Window \<Rightarrow> PrazoRule (days_between (now_window clk) (registrationDate req))
                          (criterion_passes configs req clk c)
                          (config_at configs key_prazo_dias)
           | Fraud \<Rightarrow> FraudRule (message (detectFraud (now_fraud clk) req))))]
      else [])"

text \<open>
  \<open>details.configsUsed\<close> of a result, empty for the error object.
\<close>

definition configs_of :: "validation_result \<Rightarrow> (key \<rightharpoonup> jsval)" where
  "configs_of r = (case configsUsed r of None \<Rightarrow> Map.empty | Some configs \<Rightarrow> configs)"

text \<open>
  The \<open>configs\<close> object a validation builds when it starts in state \<open>st\<close>: each of
  the six keys with what \<open>getConfiguration\<close> returns for it. (The lookups of the other
  keys before it change the cache at their own keys only; see \<open>load_configs_engine\<close>.)
\<close>

definition resolved_configs :: "json_parser \<Rightarrow> (key \<Rightarrow> env) \<Rightarrow> engine \<Rightarrow> string \<Rightarrow> (key \<rightharpoonup> jsval)" where
  "resolved_configs jp w st opt =
     (\<lambda>k. if k \<in> set (configKeys opt) then Some (ret (getConfiguration jp st k (w k))) else None)"

text \<open>
  A caller that looks the same key up again and again, once for each entry of a list
  of what the outside world does during the call.
\<close>

fun repeated_gets :: "json_parser \<Rightarrow> engine \<Rightarrow> key \<Rightarrow> env list \<Rightarrow> get_result list" where
  "repeated_gets JSON_parse st key [] = []"
| "repeated_gets JSON_parse st key (e # es) =
     (let r = getConfiguration JSON_parse st key e
      in r # repeated_gets JSON_parse (engine_after r) key es)"

section \<open>The specification's wording\<close>



text \<open>
  The specification's verdict: a criterion is evaluated exactly when its configuration
  key resolved to a value other than \<open>null\<close>, and the verdict is approved exactly when
  every criterion evaluated in that sense passes.
\<close>

definition evaluated_as_stated :: "(key \<rightharpoonup> jsval) \<Rightarrow> request \<Rightarrow> criterion \<Rightarrow> bool" where
  "evaluated_as_stated configs req c =
     (config_at configs (criterion_key (option_of req) c) \<noteq> VNull)"

definition approved_as_stated :: "(key \<rightharpoonup> jsval) \<Rightarrow> request \<Rightarrow> clock \<Rightarrow> bool" where
  "approved_as_stated configs req clk =
     list_all (\<lambda>c. evaluated_as_stated configs req c \<longrightarrow> criterion_passes configs req clk c)
       all_criteria"

section \<open>Sample inputs\<close>

text \<open>
  A parser for the sample runs: it knows the one JSON text they hold and throws on
  every other text. In each run \<open>JSON.parse\<close> is either not reached, or given that
  text, or given a text that is not JSON.
\<close>

definition JSON_parse_sample :: json_parser where
  \<open>JSON_parse_sample txt =
     (if txt = ''{"toString":1}'' then Some (VObj [(''toString'', VNum (Fin 1))]) else None)\<close>

text \<open>
  An engine that has cached nothing, and one that cached the eligibility window at
  time 1005; both with the default TTL of five minutes.
\<close>

definition engine_fresh :: engine where
  "engine_fresh = \<lparr>cache = Map.empty, cacheTTL = 300000\<rparr>"

definition engine_warm :: engine where
  "engine_warm =
     \<lparr>cache = [key_prazo_dias \<mapsto> \<lparr>entry_value = VNum (Fin 30), timestamp = 1005\<rparr>],
      cacheTTL = 300000\<rparr>"

text \<open>
  What the world does during a lookup: no remote tier and an origin that cannot be
  reached; an origin that serves a value with a declared type; an origin that answers
  \<open>success: false\<close> next to an empty remote tier; a remote tier that throws on every
  call; a lookup 200 seconds later.
\<close>

definition env_origin_down :: env where
  "env_origin_down =
     \<lparr>now_lookup = 1000, redis_open_read = False, redis_get = Returns None,
      origin_get = Throws ''connect ECONNREFUSED'', now_store = 1005,
      redis_open_write = False, redis_setEx = Returns ()\<rparr>"

definition env_origin_serves :: "string \<Rightarrow> string \<Rightarrow> env" where
  "env_origin_serves raw ty =
     env_origin_down\<lparr>origin_get :=
       Returns \<lparr>success = True, data = Some \<lparr>raw_value = raw, data_type = ty\<rparr>\<rparr>\<rparr>"

definition env_origin_refuses :: env where
  "env_origin_refuses =
     env_origin_down\<lparr>redis_open_read := True, redis_open_write := True,
       origin_get := Returns \<lparr>success = False, data = None\<rparr>\<rparr>"

definition env_redis_failing :: "string \<Rightarrow> string \<Rightarrow> env" where
  "env_redis_failing raw ty =
     (env_origin_serves raw ty)\<lparr>redis_open_read := True,
        redis_get := Throws ''The client is closed'',
        redis_open_write := True,
        redis_setEx := Throws ''The client is closed''\<rparr>"

definition env_later :: env where
  "env_later = env_origin_down\<lparr>now_lookup := 200000, redis_open_read := True,
     redis_get := Returns (Some ''99'')\<rparr>"

text \<open>
  Worlds for a whole validation: nothing can be resolved; only the thresholds of
  \<open>opcao1\<close> for deposit (30) and bets (10); a deposit threshold that is not a number;
  the same next to a bets threshold that is an object with a \<open>toString\<close> property;
  only the fraud toggle.
\<close>

definition world_outage :: "key \<Rightarrow> env" where
  "world_outage k = env_origin_down"

definition world_thresholds :: "key \<Rightarrow> env" where
  "world_thresholds k =
     (if k = key_deposito_minimo ''opcao1'' then env_origin_serves ''30'' ''float''
      else if k = key_numero_apostas ''opcao1'' then env_origin_serves ''10'' ''int''
      else env_origin_down)"


definition world_object_threshold :: "key \<Rightarrow> env" where
  \<open>world_object_threshold k =
     (if k = key_deposito_minimo ''opcao1'' then env_origin_serves ''abc'' ''int''
      else if k = key_numero_apostas ''opcao1''
        then env_origin_serves ''{"toString":1}'' ''json''
      else env_origin_down)\<close>

definition world_fraud_toggle :: "string \<Rightarrow> string \<Rightarrow> key \<Rightarrow> env" where
  "world_fraud_toggle raw ty k =
     (if k = key_deteccao_fraude_ativa then env_origin_serves raw ty else env_origin_down)"

text \<open>A lookup that throws.\<close>

definition getter_throwing :: getter where
  "getter_throwing k st = (Inl ''boom'', st)"

text \<open>
  Requests and activities: deposit 50 with 15 bets; the same with 5 bets; the same
  with a \<open>userId\<close> that is an object with a \<open>toString\<close> property; the third scenario
  of the service's self-test (deposit 2000, 3 bets, GGR 100); an activity with a
  negative bet count.
\<close>

definition request_regular :: request where
  "request_regular =
     \<lparr>depositAmount = Fin 50, betCount = Fin 15, ggrAmount = Fin 25,
      registrationDate = Some 0, affiliateId = VStr ''TEST_AFF_001'', userId = VStr ''TEST_USER_001'',
      validationOption = None\<rparr>"

definition request_few_bets :: request where
  "request_few_bets = request_regular\<lparr>betCount := Fin 5\<rparr>"

definition request_object_user :: request where
  "request_object_user = request_regular\<lparr>userId := VObj [(''toString'', VNum (Fin 1))]\<rparr>"

definition request_high_deposit :: request where
  "request_high_deposit =
     \<lparr>depositAmount = Fin 2000, betCount = Fin 3, ggrAmount = Fin 100,
      registrationDate = Some 0, affiliateId = VStr ''TEST_AFF_003'', userId = VStr ''TEST_USER_003'',
      validationOption = Some ''opcao1''\<rparr>"



definition clock_day_five :: clock where
  "clock_day_five = \<lparr>now_id = 432000000, now_window = 432000001, now_fraud = 432000002\<rparr>"

text \<open>
  The \<open>try\<close> statement of a validation on a fresh engine, with the sample parser and
  at the sample times.
\<close>

definition sample_run :: "(key \<Rightarrow> env) \<Rightarrow> request \<Rightarrow> validation_result \<times> engine" where
  "sample_run world req =
     validateCPA_try (engine_getter JSON_parse_sample world) engine_fresh req clock_day_five"

section \<open>Unfolding lemmas\<close>

lemmas get_defs = getConfiguration_def getConfiguration_try_def origin_fetch_def
  redis_store_def Let_def

lemmas sample_defs = engine_fresh_def env_origin_down_def env_origin_serves_def
  JSON_parse_sample_def

lemmas key_defs = key_deposito_minimo_def key_numero_apostas_def key_ggr_minimo_def
  key_prazo_dias_def key_timezone_def key_deteccao_fraude_ativa_def

section \<open>The lookup changes the cache at its own key only\<close>

lemma getConfiguration_try_frame:
  "k' \<noteq> k \<Longrightarrow> cache (engine_after (getConfiguration_try jp st k e)) k' = cache st k'"
  by (auto simp: getConfiguration_try_def origin_fetch_def Let_def
      split: option.splits prod.splits reply.splits sum.splits)

lemma getConfiguration_try_ttl:
  "cacheTTL (engine_after (getConfiguration_try jp st k e)) = cacheTTL st"
  by (auto simp: getConfiguration_try_def origin_fetch_def Let_def
      split: option.splits prod.splits reply.splits sum.splits)

lemma engine_after_getConfiguration:
  "engine_after (getConfiguration jp st k e) = engine_after (getConfiguration_try jp st k e)"
  by (simp add: getConfiguration_def Let_def split: completion.splits)

lemma getConfiguration_frame:
  "k' \<noteq> k \<Longrightarrow> cache (engine_after (getConfiguration jp st k e)) k' = cache st k'"
  by (simp add: engine_after_getConfiguration getConfiguration_try_frame)

lemma getConfiguration_ttl:
  "cacheTTL (engine_after (getConfiguration jp st k e)) = cacheTTL st"
  by (simp add: engine_after_getConfiguration getConfiguration_try_ttl)

lemma local_lookup_cong:
  "cache st k = cache st' k \<Longrightarrow> cacheTTL st = cacheTTL st' \<Longrightarrow>
   local_lookup st k now = local_lookup st' k now"
  by (simp add: local_lookup_def split: option.splits)

lemma ret_getConfiguration_cong:
  assumes "cache st k = cache st' k" "cacheTTL st = cacheTTL st'"
  shows "ret (getConfiguration jp st k e) = ret (getConfiguration jp st' k e)"
proof -
  have l: "local_lookup st k (now_lookup e) = local_lookup st' k (now_lookup e)"
    using assms by (rule local_lookup_cong)
  show ?thesis
    by (auto simp: getConfiguration_def getConfiguration_try_def origin_fetch_def Let_def l
      split: option.splits prod.splits reply.splits sum.splits completion.splits)
qed

text \<open>
  The loop over distinct keys never throws with \<open>getConfiguration\<close>, and gives each
  key what \<open>getConfiguration\<close> returns for it from the state the loop started in.
\<close>

lemma load_configs_engine:
  "distinct ks \<Longrightarrow>
   \<exists>st'. load_configs (engine_getter jp w) ks st cfg =
     (Inr (\<lambda>k. if k \<in> set ks then Some (ret (getConfiguration jp st k (w k))) else cfg k), st')
     \<and> (\<forall>k. k \<notin> set ks \<longrightarrow> cache st' k = cache st k) \<and> cacheTTL st' = cacheTTL st"
proof (induction ks arbitrary: st cfg)
  case Nil
  then show ?case by simp
next
  case (Cons a ks)
  let ?r = "getConfiguration jp st a (w a)"
  let ?st1 = "engine_after ?r"
  from Cons.prems have d: "distinct ks" and a: "a \<notin> set ks" by auto
  from Cons.IH[OF d, of ?st1 "cfg(a \<mapsto> ret ?r)"] obtain st' where
    l: "load_configs (engine_getter jp w) ks ?st1 (cfg(a \<mapsto> ret ?r)) =
       (Inr (\<lambda>k. if k \<in> set ks then Some (ret (getConfiguration jp ?st1 k (w k)))
                 else (cfg(a \<mapsto> ret ?r)) k), st')"
    and f: "\<forall>k. k \<notin> set ks \<longrightarrow> cache st' k = cache ?st1 k"
    and t: "cacheTTL st' = cacheTTL ?st1" by blast
  have same: "ret (getConfiguration jp ?st1 k (w k)) = ret (getConfiguration jp st k (w k))"
    if "k \<in> set ks" for k
  proof -
    from that a have "k \<noteq> a" by auto
    then show ?thesis
      by (intro ret_getConfiguration_cong) (simp_all add: getConfiguration_frame getConfiguration_ttl)
  qed
  have "(\<lambda>k. if k \<in> set ks then Some (ret (getConfiguration jp ?st1 k (w k)))
                 else (cfg(a \<mapsto> ret ?r)) k) =
        (\<lambda>k. if k \<in> set (a # ks) then Some (ret (getConfiguration jp st k (w k))) else cfg k)"
    using same by auto
  with l have "load_configs (engine_getter jp w) (a # ks) st cfg =
     (Inr (\<lambda>k. if k \<in> set (a # ks) then Some (ret (getConfiguration jp st k (w k))) else cfg k), st')"
    by (simp add: engine_getter_def Let_def)
  moreover have "\<forall>k. k \<notin> set (a # ks) \<longrightarrow> cache st' k = cache st k"
    using f by (simp add: getConfiguration_frame)
  moreover have "cacheTTL st' = cacheTTL st" using t by (simp add: getConfiguration_ttl)
  ultimately show ?case by blast
qed

lemma distinct_configKeys: "distinct (configKeys opt)"
  unfolding configKeys_def key_deposito_minimo_def key_numero_apostas_def key_ggr_minimo_def
    key_prazo_dias_def key_timezone_def key_deteccao_fraude_ativa_def
  by simp

section \<open>Literals the sample runs decode\<close>

lemma parseInt_abc: "parseInt ''abc'' = NaN"
  by (simp add: parseInt_def has_prefix_def is_space_def is_digit_def digit_of_def)

lemma parseInt_30: "parseInt ''30'' = Fin 30"
  by (simp add: parseInt_def has_prefix_def is_space_def is_digit_def digit_of_def digits_value_def)

lemma parseInt_10: "parseInt ''10'' = Fin 10"
  by (simp add: parseInt_def has_prefix_def is_space_def is_digit_def digit_of_def digits_value_def)

lemma parseInt_1: "parseInt ''1'' = Fin 1"
  by (simp add: parseInt_def has_prefix_def is_space_def is_digit_def digit_of_def digits_value_def)


lemma parseFloat_30: "parseFloat ''30'' = Fin 30"
  by (simp add: parseFloat_def signed_decimal_def unsigned_decimal_def exponent_part_def
      has_prefix_def is_space_def is_digit_def digit_of_def digits_value_def scale10_def Let_def)

lemma toLowerCase_true: "toLowerCase ''true'' = ''true''"
  by (simp add: toLowerCase_def)


section \<open>Properties of the fraud heuristics\<close>



lemma high_deposit_suspicious:
  "\<not> valid (detectFraud now request_high_deposit)"
  by (simp add: detectFraud_def suspiciousPatterns_def request_high_deposit_def num_gt_def Let_def)




section \<open>Properties of the configuration cache\<close>

lemma local_hit:
  assumes "local_lookup st key (now_lookup e) = Some v"
  shows "getConfiguration jp st key e =
     \<lparr>engine_after = st, io = [], logged = [], hits = [hit_local], ret = v\<rparr>"
  using assms by (simp add: get_defs)

lemma local_lookup_fresh:
  "cache st key = Some entry \<Longrightarrow> now - timestamp entry < cacheTTL st \<Longrightarrow>
   local_lookup st key now = Some (entry_value entry)"
  by (simp add: local_lookup_def)

lemma local_lookup_none: "cache st key = None \<Longrightarrow> local_lookup st key now = None"
  by (simp add: local_lookup_def)

lemma redis_miss_io:
  "redis_lookup jp e key = (None, evs, lg) \<Longrightarrow> count_list evs (OriginGet key) = 0
     \<and> (\<forall>k n t. RedisSetEx k n t \<notin> set evs)"
  by (auto simp: redis_lookup_def split: if_splits reply.splits option.splits)

lemma origin_once:
  assumes "local_lookup st key (now_lookup e) = None" "fst (redis_lookup jp e key) = None"
  shows "count_list (io (getConfiguration jp st key e)) (OriginGet key) = 1"
proof -
  obtain evs lg where r: "redis_lookup jp e key = (None, evs, lg)"
    using assms(2) by (cases "redis_lookup jp e key") auto
  from redis_miss_io[OF r] have c: "count_list evs (OriginGet key) = 0" by simp
  show ?thesis
    using assms(1) r c
    by (auto simp: get_defs split: reply.splits option.splits sum.splits completion.splits)
qed

lemma repeated_local_hits:
  assumes "cache st key = Some entry"
    and "\<forall>e \<in> set es. now_lookup e - timestamp entry < cacheTTL st"
  shows "\<forall>r \<in> set (repeated_gets jp st key es).
           ret r = entry_value entry \<and> io r = [] \<and> engine_after r = st"
  using assms(2)
proof (induction es)
  case Nil
  then show ?case by simp
next
  case (Cons e es)
  then have "now_lookup e - timestamp entry < cacheTTL st" by simp
  with assms(1) have "local_lookup st key (now_lookup e) = Some (entry_value entry)"
    by (rule local_lookup_fresh)
  then have g: "getConfiguration jp st key e =
     \<lparr>engine_after = st, io = [], logged = [], hits = [hit_local], ret = entry_value entry\<rparr>"
    by (rule local_hit)
  from Cons show ?case by (simp add: g)
qed

lemma origin_hit_stores:
  assumes "hit_config_service \<in> set (hits (getConfiguration jp st key e))"
  shows "cache (engine_after (getConfiguration jp st key e)) key
           = Some \<lparr>entry_value = ret (getConfiguration jp st key e), timestamp = now_store e\<rparr>
         \<and> cacheTTL (engine_after (getConfiguration jp st key e)) = cacheTTL st"
  using assms
  by (auto simp: get_defs split: reply.splits option.splits sum.splits completion.splits
      prod.splits if_splits)

lemma redis_throw_miss:
  "redis_get e = Throws m \<Longrightarrow> fst (redis_lookup jp e key) = None"
  by (simp add: redis_lookup_def)

lemma redis_closed_miss:
  "\<not> redis_open_read e \<Longrightarrow> redis_lookup jp e key = (None, [], [])"
  by (simp add: redis_lookup_def)

lemma origin_fetch_engine_indep:
  "redis_open_write_update f (redis_open_read_update g e) = e' \<Longrightarrow>
   completion (origin_fetch jp st key e evs lg) = completion (origin_fetch jp st key e' evs' lg')
   \<and> engine_after (origin_fetch jp st key e evs lg)
       = engine_after (origin_fetch jp st key e' evs' lg')"
  by (auto simp: origin_fetch_def Let_def split: reply.splits option.splits sum.splits prod.splits)

lemma ret_by_completion:
  "ret (getConfiguration jp st key e) =
     (case completion (getConfiguration_try jp st key e) of Returned v \<Rightarrow> v | _ \<Rightarrow> VNull)"
  by (simp add: getConfiguration_def Let_def split: completion.splits)

lemma try_after_misses:
  assumes "local_lookup st key (now_lookup e) = None" "redis_lookup jp e key = (None, evs, lg)"
  shows "getConfiguration_try jp st key e = origin_fetch jp st key e evs lg"
  using assms by (simp add: getConfiguration_try_def)


lemma fresh_down: "ret (getConfiguration jp engine_fresh k env_origin_down) = VNull"
  by (simp add: get_defs sample_defs local_lookup_def redis_lookup_def)

lemma fresh_serves:
  "ret (getConfiguration jp engine_fresh k (env_origin_serves raw ty)) =
     (case decode jp \<lparr>raw_value = raw, data_type = ty\<rparr> of Inl _ \<Rightarrow> VNull | Inr v \<Rightarrow> v)"
  by (simp add: get_defs sample_defs local_lookup_def redis_lookup_def split: sum.splits)

text \<open>
  Claim C3. For a key with no local entry and no remote hit, a lookup asks the origin
  exactly once. While the local entry is younger than the TTL
  (\<open>now - timestamp < cacheTTL\<close>) a lookup returns the cached value, makes no request
  to the remote tier or the origin, and leaves the engine as it was. So after a lookup
  that was answered by the origin, every later lookup of the key inside the TTL window
  returns the same value without any request.
\<close>

theorem cache_tiering:
  "(cache st key = None \<and> fst (redis_lookup jp e key) = None \<longrightarrow>
      count_list (io (getConfiguration jp st key e)) (OriginGet key) = 1)
   \<and> (\<forall>entry. cache st key = Some entry \<and> now_lookup e - timestamp entry < cacheTTL st \<longrightarrow>
        ret (getConfiguration jp st key e) = entry_value entry
        \<and> io (getConfiguration jp st key e) = []
        \<and> engine_after (getConfiguration jp st key e) = st)
   \<and> (hit_config_service \<in> set (hits (getConfiguration jp st key e))
       \<and> (\<forall>e' \<in> set es. now_lookup e' - now_store e < cacheTTL st) \<longrightarrow>
        (\<forall>r \<in> set (repeated_gets jp (engine_after (getConfiguration jp st key e)) key es).
           ret r = ret (getConfiguration jp st key e) \<and> io r = []))"
proof (intro conjI impI allI)
  assume "cache st key = None \<and> fst (redis_lookup jp e key) = None"
  then show "count_list (io (getConfiguration jp st key e)) (OriginGet key) = 1"
    by (simp add: origin_once local_lookup_none)
next
  fix entry
  assume a: "cache st key = Some entry \<and> now_lookup e - timestamp entry < cacheTTL st"
  then have "local_lookup st key (now_lookup e) = Some (entry_value entry)"
    by (simp add: local_lookup_fresh)
  then have g: "getConfiguration jp st key e =
     \<lparr>engine_after = st, io = [], logged = [], hits = [hit_local], ret = entry_value entry\<rparr>"
    by (rule local_hit)
  show "ret (getConfiguration jp st key e) = entry_value entry" by (simp add: g)
  show "io (getConfiguration jp st key e) = []" by (simp add: g)
  show "engine_after (getConfiguration jp st key e) = st" by (simp add: g)
next
  let ?r = "getConfiguration jp st key e"
  assume a: "hit_config_service \<in> set (hits ?r)
       \<and> (\<forall>e' \<in> set es. now_lookup e' - now_store e < cacheTTL st)"
  from a origin_hit_stores[of jp st key e]
  have c: "cache (engine_after ?r) key = Some \<lparr>entry_value = ret ?r, timestamp = now_store e\<rparr>"
    and t: "cacheTTL (engine_after ?r) = cacheTTL st" by simp_all
  from a t have w: "\<forall>e' \<in> set es. now_lookup e'
      - timestamp \<lparr>entry_value = ret ?r, timestamp = now_store e\<rparr> < cacheTTL (engine_after ?r)"
    by simp
  from repeated_local_hits[OF c w, of jp]
  show "\<forall>r \<in> set (repeated_gets jp (engine_after ?r) key es). ret r = ret ?r \<and> io r = []"
    by simp
qed

text \<open>
  C3 on a run: the eligibility window is fetched from the origin once, then read twice
  200 seconds later, when the origin is down and the remote tier holds another value;
  and read from an engine that already holds it.
\<close>

theorem cache_tiering_witness:
  "cache engine_fresh key_prazo_dias = None
   \<and> fst (redis_lookup JSON_parse_sample (env_origin_serves ''30'' ''int'') key_prazo_dias) = None
   \<and> count_list (io (getConfiguration JSON_parse_sample engine_fresh key_prazo_dias
                      (env_origin_serves ''30'' ''int''))) (OriginGet key_prazo_dias) = 1
   \<and> hit_config_service \<in> set (hits (getConfiguration JSON_parse_sample engine_fresh
                      key_prazo_dias (env_origin_serves ''30'' ''int'')))
   \<and> now_lookup env_later - now_store (env_origin_serves ''30'' ''int'') < cacheTTL engine_fresh
   \<and> map ret (repeated_gets JSON_parse_sample
                    (engine_after (getConfiguration JSON_parse_sample engine_fresh
                       key_prazo_dias (env_origin_serves ''30'' ''int'')))
                    key_prazo_dias [env_later, env_later]) = [VNum (Fin 30), VNum (Fin 30)]
   \<and> map io (repeated_gets JSON_parse_sample
                    (engine_after (getConfiguration JSON_parse_sample engine_fresh
                       key_prazo_dias (env_origin_serves ''30'' ''int'')))
                    key_prazo_dias [env_later, env_later]) = [[], []]
   \<and> cache engine_warm key_prazo_dias = Some \<lparr>entry_value = VNum (Fin 30), timestamp = 1005\<rparr>
   \<and> now_lookup env_later - 1005 < cacheTTL engine_warm
   \<and> ret (getConfiguration JSON_parse_sample engine_warm key_prazo_dias env_later) = VNum (Fin 30)
   \<and> io (getConfiguration JSON_parse_sample engine_warm key_prazo_dias env_later) = []"
proof -
  let ?e = "env_origin_serves ''30'' ''int''"
  let ?g = "getConfiguration JSON_parse_sample engine_fresh key_prazo_dias ?e"
  note t1 = cache_tiering [of engine_fresh key_prazo_dias JSON_parse_sample ?e
      "[env_later, env_later]"]
  note t2 = cache_tiering [of engine_warm key_prazo_dias JSON_parse_sample env_later "[]"]
  have h1: "cache engine_fresh key_prazo_dias = None" by (simp add: sample_defs env_later_def engine_warm_def)
  have h2: "fst (redis_lookup JSON_parse_sample ?e key_prazo_dias) = None"
    by (simp add: sample_defs env_later_def engine_warm_def redis_lookup_def)
  have h3: "hit_config_service \<in> set (hits ?g)"
    by (simp add: get_defs sample_defs env_later_def engine_warm_def local_lookup_def redis_lookup_def decode_def)
  have h4: "\<forall>e' \<in> set [env_later, env_later]. now_lookup e' - now_store ?e < cacheTTL engine_fresh"
    by (simp add: sample_defs env_later_def engine_warm_def)
  have v: "ret ?g = VNum (Fin 30)" by (simp add: fresh_serves decode_def parseInt_30)
  have h5: "cache engine_warm key_prazo_dias = Some \<lparr>entry_value = VNum (Fin 30), timestamp = 1005\<rparr>"
    by (simp add: sample_defs env_later_def engine_warm_def)
  have h6: "now_lookup env_later - 1005 < cacheTTL engine_warm" by (simp add: sample_defs env_later_def engine_warm_def)
  from t1 h1 h2 have c1: "count_list (io ?g) (OriginGet key_prazo_dias) = 1" by blast
  from t1 h3 h4 have c2: "\<forall>r \<in> set (repeated_gets JSON_parse_sample (engine_after ?g)
                    key_prazo_dias [env_later, env_later]). ret r = ret ?g \<and> io r = []"
    by blast
  from t2 h5 h6 have c3:
    "ret (getConfiguration JSON_parse_sample engine_warm key_prazo_dias env_later) = VNum (Fin 30)
     \<and> io (getConfiguration JSON_parse_sample engine_warm key_prazo_dias env_later) = []"
    by force
  have rg: "repeated_gets JSON_parse_sample (engine_after ?g) key_prazo_dias [env_later, env_later]
      = [getConfiguration JSON_parse_sample (engine_after ?g) key_prazo_dias env_later,
         getConfiguration JSON_parse_sample
           (engine_after (getConfiguration JSON_parse_sample (engine_after ?g)
              key_prazo_dias env_later)) key_prazo_dias env_later]"
    by (simp add: Let_def)
  from c2 v have c4:
    "map ret (repeated_gets JSON_parse_sample (engine_after ?g) key_prazo_dias
        [env_later, env_later]) = [VNum (Fin 30), VNum (Fin 30)]
     \<and> map io (repeated_gets JSON_parse_sample (engine_after ?g) key_prazo_dias
        [env_later, env_later]) = [[], []]"
    unfolding rg by simp
  from h4 have h4': "now_lookup env_later - now_store ?e < cacheTTL engine_fresh" by simp
  from h1 h2 h3 h4' h5 h6 c1 c3 c4 show ?thesis by simp
qed

text \<open>
  Claim C6. If the read of the remote tier throws and its write throws, the lookup
  returns what it returns without a remote tier, and leaves the same local cache.
  In particular, when the origin answers with a value that decodes, the lookup returns
  the decoded value from inside its \<open>try\<close>, stores it locally, asks the origin, counts
  no error and logs no error (only warnings).
\<close>

theorem remote_tier_failures_swallowed:
  assumes "redis_get e = Throws m1" and "redis_setEx e = Throws m2"
  shows "ret (getConfiguration jp st key e)
           = ret (getConfiguration jp st key (e\<lparr>redis_open_read := False, redis_open_write := False\<rparr>))
       \<and> engine_after (getConfiguration jp st key e)
           = engine_after (getConfiguration jp st key
               (e\<lparr>redis_open_read := False, redis_open_write := False\<rparr>))
       \<and> (\<forall>resp cfg v. local_lookup st key (now_lookup e) = None
             \<and> origin_get e = Returns resp \<and> success resp \<and> data resp = Some cfg
             \<and> decode jp cfg = Inr v \<longrightarrow>
             ret (getConfiguration jp st key e) = v
             \<and> completion (getConfiguration_try jp st key e) = Returned v
             \<and> hit_error \<notin> set (hits (getConfiguration jp st key e))
             \<and> (\<forall>m. Error m \<notin> set (logged (getConfiguration jp st key e)))
             \<and> cache (engine_after (getConfiguration jp st key e)) key
                 = Some \<lparr>entry_value = v, timestamp = now_store e\<rparr>
             \<and> OriginGet key \<in> set (io (getConfiguration jp st key e)))"
proof -
  let ?e' = "e\<lparr>redis_open_read := False, redis_open_write := False\<rparr>"
  obtain evs lg where r: "redis_lookup jp e key = (None, evs, lg)"
    using redis_throw_miss[OF assms(1), of jp key] by (cases "redis_lookup jp e key") auto
  have r': "redis_lookup jp ?e' key = (None, [], [])" by (simp add: redis_closed_miss)
  have same: "completion (getConfiguration_try jp st key e)
                = completion (getConfiguration_try jp st key ?e')
            \<and> engine_after (getConfiguration_try jp st key e)
                = engine_after (getConfiguration_try jp st key ?e')"
  proof (cases "local_lookup st key (now_lookup e)")
    case None
    then have "getConfiguration_try jp st key e = origin_fetch jp st key e evs lg"
      and "getConfiguration_try jp st key ?e' = origin_fetch jp st key ?e' [] []"
      using r r' by (simp_all add: getConfiguration_try_def)
    then show ?thesis
      using origin_fetch_engine_indep[of "\<lambda>_. False" "\<lambda>_. False" e ?e' jp st key evs lg "[]" "[]"]
      by simp
  next
    case (Some v)
    then show ?thesis by (simp add: getConfiguration_try_def)
  qed
  have a: "ret (getConfiguration jp st key e) = ret (getConfiguration jp st key ?e')"
    using same by (simp add: ret_by_completion)
  have b: "engine_after (getConfiguration jp st key e)
             = engine_after (getConfiguration jp st key ?e')"
    using same
    by (simp add: getConfiguration_def Let_def split: completion.splits)
  have c: "ret (getConfiguration jp st key e) = v
             \<and> completion (getConfiguration_try jp st key e) = Returned v
             \<and> hit_error \<notin> set (hits (getConfiguration jp st key e))
             \<and> (\<forall>m. Error m \<notin> set (logged (getConfiguration jp st key e)))
             \<and> cache (engine_after (getConfiguration jp st key e)) key
                 = Some \<lparr>entry_value = v, timestamp = now_store e\<rparr>
             \<and> OriginGet key \<in> set (io (getConfiguration jp st key e))"
    if "local_lookup st key (now_lookup e) = None
             \<and> origin_get e = Returns resp \<and> success resp \<and> data resp = Some cfg
             \<and> decode jp cfg = Inr v" for resp cfg v
    using that r
    by (auto simp: get_defs redis_lookup_def split: prod.splits if_splits reply.splits option.splits)
  from a b c show ?thesis by blast
qed

text \<open>
  C6 on a run: the remote tier is open and throws on both calls, the origin serves
  \<open>"30"\<close> as a float; the lookup returns 30 and logs two warnings.
\<close>

theorem remote_tier_failures_swallowed_witness:
  "redis_get (env_redis_failing ''30'' ''float'') = Throws ''The client is closed''
   \<and> redis_setEx (env_redis_failing ''30'' ''float'') = Throws ''The client is closed''
   \<and> redis_open_read (env_redis_failing ''30'' ''float'')
   \<and> redis_open_write (env_redis_failing ''30'' ''float'')
   \<and> local_lookup engine_fresh key_prazo_dias (now_lookup (env_redis_failing ''30'' ''float'')) = None
   \<and> decode JSON_parse_sample \<lparr>raw_value = ''30'', data_type = ''float''\<rparr> = Inr (VNum (Fin 30))
   \<and> ret (getConfiguration JSON_parse_sample engine_fresh key_prazo_dias
            (env_redis_failing ''30'' ''float'')) = VNum (Fin 30)
   \<and> hit_error \<notin> set (hits (getConfiguration JSON_parse_sample engine_fresh key_prazo_dias
            (env_redis_failing ''30'' ''float'')))
   \<and> logged (getConfiguration JSON_parse_sample engine_fresh key_prazo_dias
            (env_redis_failing ''30'' ''float''))
       = [Warn ''The client is closed'', Warn ''The client is closed'']"
proof -
  let ?e = "env_redis_failing ''30'' ''float''"
  note t = remote_tier_failures_swallowed [of ?e "''The client is closed''"
      "''The client is closed''" JSON_parse_sample engine_fresh key_prazo_dias]
  have h1: "redis_get ?e = Throws ''The client is closed''" by (simp add: sample_defs env_redis_failing_def)
  have h2: "redis_setEx ?e = Throws ''The client is closed''" by (simp add: sample_defs env_redis_failing_def)
  have h3: "local_lookup engine_fresh key_prazo_dias (now_lookup ?e) = None"
    by (simp add: sample_defs env_redis_failing_def local_lookup_def)
  have h4: "origin_get ?e = Returns \<lparr>success = True,
      data = Some \<lparr>raw_value = ''30'', data_type = ''float''\<rparr>\<rparr>"
    by (simp add: sample_defs env_redis_failing_def)
  have h5: "decode JSON_parse_sample \<lparr>raw_value = ''30'', data_type = ''float''\<rparr>
      = Inr (VNum (Fin 30))"
    by (simp add: decode_def parseFloat_30)
  from t[OF h1 h2] h3 h4 h5
  have c: "ret (getConfiguration JSON_parse_sample engine_fresh key_prazo_dias ?e) = VNum (Fin 30)
     \<and> hit_error \<notin> set (hits (getConfiguration JSON_parse_sample engine_fresh key_prazo_dias ?e))"
    by force
  have l: "logged (getConfiguration JSON_parse_sample engine_fresh key_prazo_dias ?e)
       = [Warn ''The client is closed'', Warn ''The client is closed'']"
    by (simp add: get_defs sample_defs env_redis_failing_def local_lookup_def redis_lookup_def decode_def parseFloat_30)
  have o: "redis_open_read ?e \<and> redis_open_write ?e" by (simp add: sample_defs env_redis_failing_def)
  from h1 h2 h3 h5 c l o show ?thesis by simp
qed

text \<open>
  Claim C8. When neither cache tier has a hit and the origin request throws (transport
  error, timeout) or answers \<open>success: false\<close>, the lookup returns \<open>null\<close>, leaves
  the engine (and so its local cache) unchanged and writes nothing to the remote tier;
  a later lookup of the key with no local and no remote hit asks the origin again.
\<close>

theorem absent_not_cached:
  assumes "local_lookup st key (now_lookup e) = None"
    and "fst (redis_lookup jp e key) = None"
    and "(\<exists>msg. origin_get e = Throws msg)
         \<or> (\<exists>resp. origin_get e = Returns resp \<and> \<not> success resp)"
  shows "ret (getConfiguration jp st key e) = VNull
       \<and> engine_after (getConfiguration jp st key e) = st
       \<and> (\<forall>k n t. RedisSetEx k n t \<notin> set (io (getConfiguration jp st key e)))
       \<and> (\<forall>e2. local_lookup (engine_after (getConfiguration jp st key e)) key (now_lookup e2) = None
                \<and> fst (redis_lookup jp e2 key) = None \<longrightarrow>
             count_list (io (getConfiguration jp (engine_after (getConfiguration jp st key e)) key e2))
               (OriginGet key) = 1)"
proof -
  obtain evs lg where r: "redis_lookup jp e key = (None, evs, lg)"
    using assms(2) by (cases "redis_lookup jp e key") auto
  from redis_miss_io[OF r] have w: "\<forall>k n t. RedisSetEx k n t \<notin> set evs" by simp
  have t: "getConfiguration_try jp st key e = origin_fetch jp st key e evs lg"
    using assms(1) r by (rule try_after_misses)
  have a: "ret (getConfiguration jp st key e) = VNull"
    using assms(3) by (auto simp: ret_by_completion t origin_fetch_def)
  have b: "engine_after (getConfiguration jp st key e) = st"
    using assms(3)
    by (auto simp: getConfiguration_def t origin_fetch_def Let_def split: completion.splits)
  have c: "\<forall>k n t. RedisSetEx k n t \<notin> set (io (getConfiguration jp st key e))"
    using assms(3) w
    by (auto simp: getConfiguration_def t origin_fetch_def Let_def split: completion.splits)
  have d: "count_list (io (getConfiguration jp (engine_after (getConfiguration jp st key e)) key e2))
               (OriginGet key) = 1"
    if "local_lookup (engine_after (getConfiguration jp st key e)) key (now_lookup e2) = None
                \<and> fst (redis_lookup jp e2 key) = None" for e2
    using that by (simp add: origin_once)
  from a b c d show ?thesis by blast
qed

text \<open>
  C8 on a run: the local entry has expired, the remote tier is empty and the origin
  answers \<open>success: false\<close>; the next lookup asks the origin again.
\<close>

theorem absent_not_cached_witness:
  "local_lookup engine_warm key_prazo_dias 400000 = None
   \<and> fst (redis_lookup JSON_parse_sample (env_origin_refuses\<lparr>now_lookup := 400000\<rparr>)
            key_prazo_dias) = None
   \<and> \<not> success \<lparr>success = False, data = None\<rparr>
   \<and> ret (getConfiguration JSON_parse_sample engine_warm key_prazo_dias
            (env_origin_refuses\<lparr>now_lookup := 400000\<rparr>)) = VNull
   \<and> engine_after (getConfiguration JSON_parse_sample engine_warm key_prazo_dias
            (env_origin_refuses\<lparr>now_lookup := 400000\<rparr>)) = engine_warm
   \<and> io (getConfiguration JSON_parse_sample engine_warm key_prazo_dias
            (env_origin_refuses\<lparr>now_lookup := 400000\<rparr>))
       = [RedisGet ''config_cache:cpa.validacao.prazo_dias'', OriginGet key_prazo_dias]
   \<and> count_list (io (getConfiguration JSON_parse_sample
         (engine_after (getConfiguration JSON_parse_sample engine_warm key_prazo_dias
            (env_origin_refuses\<lparr>now_lookup := 400000\<rparr>)))
         key_prazo_dias (env_origin_down\<lparr>now_lookup := 500000\<rparr>))) (OriginGet key_prazo_dias) = 1"
proof -
  let ?e = "env_origin_refuses\<lparr>now_lookup := 400000\<rparr>"
  let ?e2 = "env_origin_down\<lparr>now_lookup := 500000\<rparr>"
  have h1: "local_lookup engine_warm key_prazo_dias (now_lookup ?e) = None"
    by (simp add: sample_defs env_origin_refuses_def engine_warm_def local_lookup_def)
  have h2: "fst (redis_lookup JSON_parse_sample ?e key_prazo_dias) = None"
    by (simp add: sample_defs env_origin_refuses_def engine_warm_def redis_lookup_def)
  have h3: "(\<exists>msg. origin_get ?e = Throws msg)
         \<or> (\<exists>resp. origin_get ?e = Returns resp \<and> \<not> success resp)"
    by (simp add: sample_defs env_origin_refuses_def engine_warm_def)
  note t = absent_not_cached [OF h1 h2 h3]
  from t have a: "ret (getConfiguration JSON_parse_sample engine_warm key_prazo_dias ?e) = VNull"
    and b: "engine_after (getConfiguration JSON_parse_sample engine_warm key_prazo_dias ?e)
              = engine_warm" by simp_all
  have g1: "local_lookup (engine_after (getConfiguration JSON_parse_sample engine_warm
                key_prazo_dias ?e)) key_prazo_dias (now_lookup ?e2) = None"
    unfolding b by (simp add: sample_defs env_origin_refuses_def engine_warm_def local_lookup_def)
  have g2: "fst (redis_lookup JSON_parse_sample ?e2 key_prazo_dias) = None"
    by (simp add: sample_defs env_origin_refuses_def engine_warm_def redis_lookup_def)
  from t g1 g2 have c: "count_list (io (getConfiguration JSON_parse_sample
         (engine_after (getConfiguration JSON_parse_sample engine_warm key_prazo_dias ?e))
         key_prazo_dias ?e2)) (OriginGet key_prazo_dias) = 1" by blast
  have i: "io (getConfiguration JSON_parse_sample engine_warm key_prazo_dias ?e)
       = [RedisGet ''config_cache:cpa.validacao.prazo_dias'', OriginGet key_prazo_dias]"
    by (simp add: get_defs sample_defs env_origin_refuses_def engine_warm_def local_lookup_def redis_lookup_def redis_key_def key_defs)
  have h1': "local_lookup engine_warm key_prazo_dias 400000 = None"
    using h1 by (simp add: sample_defs env_origin_refuses_def engine_warm_def)
  from h1' h2 a b c i show ?thesis by simp
qed




section \<open>Properties of the rule evaluator\<close>

text \<open>
  Each validation, by cases on its guard and on whether its comparison throws.
\<close>

lemma validacao_deposito_cases:
  "validacao_deposito configs req =
     (if \<not> criterion_guard configs req Deposit then Inr []
      else if criterion_throws configs req Deposit then Inl TypeError_primitive
      else Inr [(criterion_passes configs req clk Deposit,
                 DepositRule (depositAmount req) (criterion_passes configs req clk Deposit)
                   (config_at configs (key_deposito_minimo (option_of req))))])"
  by (simp add: validacao_deposito_def js_ge_def Let_def)

lemma validacao_apostas_cases:
  "validacao_apostas configs req =
     (if \<not> criterion_guard configs req Bets then Inr []
      else if criterion_throws configs req Bets then Inl TypeError_primitive
      else Inr [(criterion_passes configs req clk Bets,
                 BetsRule (betCount req) (criterion_passes configs req clk Bets)
                   (config_at configs (key_numero_apostas (option_of req))))])"
  by (simp add: validacao_apostas_def js_ge_def Let_def)

lemma validacao_ggr_cases:
  "validacao_ggr configs req =
     (if \<not> criterion_guard configs req GGR then Inr []
      else if criterion_throws configs req GGR then Inl TypeError_primitive
      else Inr [(criterion_passes configs req clk GGR,
                 GGRRule (ggrAmount req) (criterion_passes configs req clk GGR)
                   (config_at configs (key_ggr_minimo (option_of req))))])"
  by (simp add: validacao_ggr_def js_ge_def Let_def)

lemma validacao_prazo_cases:
  "validacao_prazo configs req clk =
     (if \<not> criterion_guard configs req Window then Inr []
      else if criterion_throws configs req Window then Inl TypeError_primitive
      else Inr [(criterion_passes configs req clk Window,
                 PrazoRule (days_between (now_window clk) (registrationDate req))
                   (criterion_passes configs req clk Window)
                   (config_at configs key_prazo_dias))])"
  by (simp add: validacao_prazo_def js_le_def Let_def)

lemma validacao_fraude_cases:
  "validacao_fraude configs req clk =
     (if \<not> criterion_guard configs req Fraud then Inr []
      else Inr [(criterion_passes configs req clk Fraud,
                 FraudRule (message (detectFraud (now_fraud clk) req)))])"
  by (simp add: validacao_fraude_def Let_def)

lemmas validacao_cases = validacao_deposito_cases validacao_apostas_cases validacao_ggr_cases
  validacao_prazo_cases validacao_fraude_cases

lemma rule_throws_iff:
  "rule_throws configs req \<longleftrightarrow>
     (criterion_guard configs req Deposit \<and> criterion_throws configs req Deposit)
     \<or> (criterion_guard configs req Bets \<and> criterion_throws configs req Bets)
     \<or> (criterion_guard configs req GGR \<and> criterion_throws configs req GGR)
     \<or> (criterion_guard configs req Window \<and> criterion_throws configs req Window)"
  by (simp add: rule_throws_def all_criteria_def)

lemma validacao_entries:
  "\<not> (criterion_guard configs req Deposit \<and> criterion_throws configs req Deposit) \<Longrightarrow>
     validacao_deposito configs req = Inr (rule_entries configs req clk Deposit)"
  "\<not> (criterion_guard configs req Bets \<and> criterion_throws configs req Bets) \<Longrightarrow>
     validacao_apostas configs req = Inr (rule_entries configs req clk Bets)"
  "\<not> (criterion_guard configs req GGR \<and> criterion_throws configs req GGR) \<Longrightarrow>
     validacao_ggr configs req = Inr (rule_entries configs req clk GGR)"
  "\<not> (criterion_guard configs req Window \<and> criterion_throws configs req Window) \<Longrightarrow>
     validacao_prazo configs req clk = Inr (rule_entries configs req clk Window)"
  "validacao_fraude configs req clk = Inr (rule_entries configs req clk Fraud)"
  unfolding validacao_cases[of configs req clk] rule_entries_def by auto

lemma validacao_throw:
  "criterion_guard configs req Deposit \<and> criterion_throws configs req Deposit \<Longrightarrow>
     validacao_deposito configs req = Inl TypeError_primitive"
  "criterion_guard configs req Bets \<and> criterion_throws configs req Bets \<Longrightarrow>
     validacao_apostas configs req = Inl TypeError_primitive"
  "criterion_guard configs req GGR \<and> criterion_throws configs req GGR \<Longrightarrow>
     validacao_ggr configs req = Inl TypeError_primitive"
  "criterion_guard configs req Window \<and> criterion_throws configs req Window \<Longrightarrow>
     validacao_prazo configs req clk = Inl TypeError_primitive"
  unfolding validacao_cases[of configs req clk] by simp_all

lemma and_then_Inl: "and_then x (Inl m) = Inl (case x of Inl m' \<Rightarrow> m' | Inr _ \<Rightarrow> m)"
  by (cases x) simp_all

lemma validacao_throw_or_entries:
  "validacao_deposito configs req = Inl TypeError_primitive
   \<or> validacao_deposito configs req = Inr (rule_entries configs req clk Deposit)"
  "validacao_apostas configs req = Inl TypeError_primitive
   \<or> validacao_apostas configs req = Inr (rule_entries configs req clk Bets)"
  "validacao_ggr configs req = Inl TypeError_primitive
   \<or> validacao_ggr configs req = Inr (rule_entries configs req clk GGR)"
  "validacao_prazo configs req clk = Inl TypeError_primitive
   \<or> validacao_prazo configs req clk = Inr (rule_entries configs req clk Window)"
  using validacao_entries(1-4)[of configs req clk] validacao_throw(1-3)[of configs req]
    validacao_throw(4)[of configs req clk]
  by blast+

text \<open>
  The rules as a whole: the first throw, or the entries of the five criteria in order.
\<close>

lemma apply_rules_throws:
  assumes "rule_throws configs req"
  shows "apply_rules configs req clk = Inl TypeError_primitive"
proof -
  note o = validacao_throw_or_entries[of configs req clk]
  note t = validacao_throw(1-3)[of configs req] validacao_throw(4)[of configs req clk]
  from assms consider
      (d) "criterion_guard configs req Deposit \<and> criterion_throws configs req Deposit"
    | (b) "criterion_guard configs req Bets \<and> criterion_throws configs req Bets"
    | (g) "criterion_guard configs req GGR \<and> criterion_throws configs req GGR"
    | (w) "criterion_guard configs req Window \<and> criterion_throws configs req Window"
    unfolding rule_throws_iff by blast
  then show ?thesis
  proof cases
    case d
    then show ?thesis by (simp add: apply_rules_def t(1))
  next
    case b
    from o(1) show ?thesis
      by (rule disjE) (simp_all add: apply_rules_def t(2)[OF b])
  next
    case g
    from o(1) o(2) show ?thesis
      by (elim disjE) (simp_all add: apply_rules_def t(3)[OF g])
  next
    case w
    from o(1) o(2) o(3) show ?thesis
      by (elim disjE) (simp_all add: apply_rules_def t(4)[OF w])
  qed
qed

lemma apply_rules_returns:
  assumes "\<not> rule_throws configs req"
  shows "apply_rules configs req clk =
     Inr (rule_entries configs req clk Deposit @ rule_entries configs req clk Bets
          @ rule_entries configs req clk GGR @ rule_entries configs req clk Window
          @ rule_entries configs req clk Fraud)"
  using assms unfolding rule_throws_iff apply_rules_def
  by (simp add: validacao_entries[of configs req clk])

lemma rule_entries_criteria:
  "map (criterion_of \<circ> snd) (rule_entries configs req clk c) =
     (if criterion_guard configs req c then [c] else [])"
  by (cases c) (simp_all add: rule_entries_def)

lemma rule_entries_results:
  "list_all (\<lambda>r. r) (map fst (rule_entries configs req clk c)) \<longleftrightarrow>
     (criterion_guard configs req c \<longrightarrow> criterion_passes configs req clk c)"
  by (simp add: rule_entries_def)

text \<open>
  The \<open>try\<close> statement with the engine's own lookup: the configurations it loads,
  the error object when a comparison throws, and the result it builds otherwise.
\<close>

lemma validateCPA_load:
  "\<exists>st'. load_configs (engine_getter jp w) (configKeys (option_of req)) st Map.empty
           = (Inr (resolved_configs jp w st (option_of req)), st')"
  using load_configs_engine[OF distinct_configKeys, of jp w "option_of req" st Map.empty]
  unfolding resolved_configs_def by blast

lemma validateCPA_throws:
  assumes "validateCPA_try (engine_getter jp w) st req clk = (r, st')"
    and "rule_throws (resolved_configs jp w st (option_of req)) req"
  shows "r = error_result (affiliateId req, userId req, now_id clk) TypeError_primitive"
proof -
  from validateCPA_load[of jp w req st] obtain s1 where
    l: "load_configs (engine_getter jp w) (configKeys (option_of req)) st Map.empty
           = (Inr (resolved_configs jp w st (option_of req)), s1)" by blast
  from assms(1) show ?thesis
    by (simp add: validateCPA_try_def l Let_def
        apply_rules_throws[OF assms(2)])
qed

lemma validateCPA_returns:
  assumes "validateCPA_try (engine_getter jp w) st req clk = (r, st')"
    and "\<not> rule_throws (resolved_configs jp w st (option_of req)) req"
    and "outcomes = rule_entries (resolved_configs jp w st (option_of req)) req clk Deposit
          @ rule_entries (resolved_configs jp w st (option_of req)) req clk Bets
          @ rule_entries (resolved_configs jp w st (option_of req)) req clk GGR
          @ rule_entries (resolved_configs jp w st (option_of req)) req clk Window
          @ rule_entries (resolved_configs jp w st (option_of req)) req clk Fraud"
  shows "configsUsed r = Some (resolved_configs jp w st (option_of req))"
    and "rulesApplied r = map snd outcomes"
    and "individualResults r = zip (map snd outcomes) (map fst outcomes)"
    and "result r = (if list_all (\<lambda>r. r) (map fst outcomes) then approved else rejected)"
proof -
  from validateCPA_load[of jp w req st] obtain s1 where
    l: "load_configs (engine_getter jp w) (configKeys (option_of req)) st Map.empty
           = (Inr (resolved_configs jp w st (option_of req)), s1)" by blast
  have a: "apply_rules (resolved_configs jp w st (option_of req)) req clk = Inr outcomes"
    unfolding assms(3) by (rule apply_rules_returns[OF assms(2)])
  from assms(1) have r: "r = \<lparr>validationId = (affiliateId req, userId req, now_id clk),
        result = (if list_all (\<lambda>r. r) (map fst outcomes) then approved else rejected),
        reason = (if list_all (\<lambda>r. r) (map fst outcomes) then AllApproved else SomeFailed),
        configsUsed = Some (resolved_configs jp w st (option_of req)),
        individualResults = zip (map snd outcomes) (map fst outcomes),
        rulesApplied = map snd outcomes\<rparr>"
    by (simp add: validateCPA_try_def l a Let_def)
  show "configsUsed r = Some (resolved_configs jp w st (option_of req))" by (simp add: r)
  show "rulesApplied r = map snd outcomes" by (simp add: r)
  show "individualResults r = zip (map snd outcomes) (map fst outcomes)" by (simp add: r)
  show "result r = (if list_all (\<lambda>r. r) (map fst outcomes) then approved else rejected)"
    by (simp add: r)
qed

lemma validateCPA_Inr:
  "validateCPA jp w st req clk = Inr (r, st') \<Longrightarrow>
   validateCPA_try (engine_getter jp w) st req clk = (r, st')"
  by (simp add: validateCPA_def validateCPA_with_def split: if_splits)

lemma validateCPA_raises_iff:
  "validateCPA jp w st req clk = Inl msg \<longleftrightarrow>
     (ToPrimitive_throws (affiliateId req) \<or> ToPrimitive_throws (userId req))
     \<and> msg = TypeError_primitive"
  by (auto simp: validateCPA_def validateCPA_with_def)

lemma sample_validate:
  "\<not> ToPrimitive_throws (affiliateId req) \<Longrightarrow> \<not> ToPrimitive_throws (userId req) \<Longrightarrow>
   validateCPA JSON_parse_sample world engine_fresh req clock_day_five
     = Inr (fst (sample_run world req), snd (sample_run world req))"
  by (simp add: validateCPA_def validateCPA_with_def sample_run_def)

lemma sample_try:
  "validateCPA_try (engine_getter JSON_parse_sample world) engine_fresh req clock_day_five
     = (fst (sample_run world req), snd (sample_run world req))"
  by (simp add: sample_run_def)

lemma config_at_resolved:
  "k \<in> set (configKeys opt) \<Longrightarrow>
   config_at (resolved_configs jp w st opt) k = ret (getConfiguration jp st k (w k))"
  by (simp add: config_at_def resolved_configs_def)

lemma throws_not_passes:
  "criterion_throws configs req c \<Longrightarrow> \<not> criterion_passes configs req clk c"
  by (cases c) (simp_all add: js_ge_def js_le_def)

lemma validateCPA_verdict:
  assumes "validateCPA_try (engine_getter jp w) st req clk = (r, st')"
  shows "result r = error \<longleftrightarrow> rule_throws (resolved_configs jp w st (option_of req)) req"
    and "result r = approved \<longleftrightarrow>
          (\<forall>c \<in> set all_criteria.
              criterion_guard (resolved_configs jp w st (option_of req)) req c
              \<longrightarrow> criterion_passes (resolved_configs jp w st (option_of req)) req clk c)"
    and "result r \<noteq> error \<Longrightarrow>
          configsUsed r = Some (resolved_configs jp w st (option_of req))
          \<and> evaluated r
              = filter (criterion_guard (resolved_configs jp w st (option_of req)) req)
                  all_criteria"
    and "result r = error \<Longrightarrow> evaluated r = [] \<and> configsUsed r = None"
proof -
  let ?cfg = "resolved_configs jp w st (option_of req)"
  let ?out = "rule_entries ?cfg req clk Deposit @ rule_entries ?cfg req clk Bets
          @ rule_entries ?cfg req clk GGR @ rule_entries ?cfg req clk Window
          @ rule_entries ?cfg req clk Fraud"
  have all: "list_all (\<lambda>r. r) (map fst ?out) \<longleftrightarrow>
      (\<forall>c \<in> set all_criteria. criterion_guard ?cfg req c \<longrightarrow> criterion_passes ?cfg req clk c)"
    by (simp add: all_criteria_def rule_entries_results del: criterion_guard.simps
        criterion_passes.simps)
  have crit: "map (criterion_of \<circ> snd) ?out = filter (criterion_guard ?cfg req) all_criteria"
    by (simp add: all_criteria_def rule_entries_criteria del: criterion_guard.simps)
  show e: "result r = error \<longleftrightarrow> rule_throws ?cfg req"
  proof (cases "rule_throws ?cfg req")
    case True
    from validateCPA_throws[OF assms True] True show ?thesis by (simp add: error_result_def)
  next
    case False
    from validateCPA_returns(4)[OF assms False refl] False show ?thesis by simp
  qed
  show "result r = approved \<longleftrightarrow>
      (\<forall>c \<in> set all_criteria. criterion_guard ?cfg req c \<longrightarrow> criterion_passes ?cfg req clk c)"
  proof (cases "rule_throws ?cfg req")
    case True
    then obtain c where c: "c \<in> set all_criteria" "criterion_guard ?cfg req c"
      "criterion_throws ?cfg req c"
      by (auto simp: rule_throws_def list_ex_iff)
    from throws_not_passes[OF c(3)] c(1,2)
    have "\<not> (\<forall>c \<in> set all_criteria. criterion_guard ?cfg req c
                \<longrightarrow> criterion_passes ?cfg req clk c)" by blast
    with validateCPA_throws[OF assms True] show ?thesis by (simp add: error_result_def)
  next
    case False
    from validateCPA_returns(4)[OF assms False refl] all show ?thesis by simp
  qed
  show "configsUsed r = Some ?cfg \<and> evaluated r = filter (criterion_guard ?cfg req) all_criteria"
    if "result r \<noteq> error"
  proof -
    from that e have f: "\<not> rule_throws ?cfg req" by simp
    from validateCPA_returns(1,2)[OF assms f refl] crit show ?thesis
      by (simp add: evaluated_def)
  qed
  show "evaluated r = [] \<and> configsUsed r = None" if "result r = error"
  proof -
    from that e have t: "rule_throws ?cfg req" by simp
    from validateCPA_throws[OF assms t] show ?thesis by (simp add: error_result_def evaluated_def)
  qed
qed

lemma in_zip_swapped:
  "(a, b) \<in> set xs \<Longrightarrow> (b, a) \<in> set (zip (map snd xs) (map fst xs))"
  by (induction xs) auto



lemma load_configs_throw:
  "fst (load_configs get ks st cfg) = Inl msg \<Longrightarrow> \<exists>k \<in> set ks. \<exists>s. fst (get k s) = Inl msg"
proof (induction ks arbitrary: st cfg)
  case Nil
  then show ?case by simp
next
  case (Cons k ks)
  show ?case
  proof (cases "get k st")
    case (Pair out s1)
    show ?thesis
    proof (cases out)
      case (Inl m)
      with Pair Cons.prems have "m = msg" by simp
      with Pair Inl have "fst (get k st) = Inl msg" by simp
      then show ?thesis by auto
    next
      case (Inr v)
      with Pair Cons.prems have "fst (load_configs get ks s1 (cfg(k \<mapsto> v))) = Inl msg" by simp
      from Cons.IH[OF this] show ?thesis by auto
    qed
  qed
qed

text \<open>
  The \<open>catch\<close> of \<open>validateCPA\<close>, over any lookup: a throw of a lookup or of a
  comparison gives the error object with the message thrown; the result is \<open>error\<close>
  only then, and the error object lists no rule.
\<close>

lemma validate_try_catches:
  assumes "validateCPA_try get st req clk = (r, st')"
    and "loaded = fst (load_configs get (configKeys (option_of req)) st Map.empty)"
    and "vid = (affiliateId req, userId req, now_id clk)"
  shows "(\<forall>msg. loaded = Inl msg \<longrightarrow> r = error_result vid msg)
     \<and> (\<forall>configs msg. loaded = Inr configs \<and> apply_rules configs req clk = Inl msg \<longrightarrow>
            r = error_result vid msg)
     \<and> (result r = error \<longleftrightarrow>
          (\<exists>msg. loaded = Inl msg)
          \<or> (\<exists>configs msg. loaded = Inr configs \<and> apply_rules configs req clk = Inl msg))
     \<and> (result r = error \<longrightarrow>
          (\<exists>msg. reason r = ErrorDuring msg) \<and> rulesApplied r = []
          \<and> individualResults r = [] \<and> validationId r = vid)
     \<and> (\<forall>msg. loaded = Inl msg \<longrightarrow>
            (\<exists>k \<in> set (configKeys (option_of req)). \<exists>s. fst (get k s) = Inl msg))"
proof -
  let ?l = "load_configs get (configKeys (option_of req)) st Map.empty"
  have a: "r = error_result vid msg" if "loaded = Inl msg" for msg
    using that assms by (cases ?l) (auto simp: validateCPA_try_def Let_def)
  have b: "r = error_result vid msg"
    if "loaded = Inr configs \<and> apply_rules configs req clk = Inl msg" for configs msg
    using that assms by (cases ?l) (auto simp: validateCPA_try_def Let_def)
  have c: "(\<exists>msg. loaded = Inl msg)
          \<or> (\<exists>configs msg. loaded = Inr configs \<and> apply_rules configs req clk = Inl msg)"
    if e: "result r = error"
  proof (cases loaded)
    case (Inl msg)
    then show ?thesis by simp
  next
    case (Inr configs)
    show ?thesis
    proof (cases "apply_rules configs req clk")
      case (Inl msg)
      with Inr show ?thesis by simp
    next
      case (Inr outcomes)
      with \<open>loaded = Inr configs\<close> assms e show ?thesis
        by (cases ?l) (auto simp: validateCPA_try_def Let_def split: if_splits)
    qed
  qed
  have d: "result r = error" if "(\<exists>msg. loaded = Inl msg)
          \<or> (\<exists>configs msg. loaded = Inr configs \<and> apply_rules configs req clk = Inl msg)"
    using that a b by (auto simp: error_result_def)
  have f: "(\<exists>msg. reason r = ErrorDuring msg) \<and> rulesApplied r = []
          \<and> individualResults r = [] \<and> validationId r = vid" if e: "result r = error"
    using c[OF e] a b by (auto simp: error_result_def)
  have g: "\<exists>k \<in> set (configKeys (option_of req)). \<exists>s. fst (get k s) = Inl msg"
    if "loaded = Inl msg" for msg
    using that load_configs_throw[of get "configKeys (option_of req)" st Map.empty msg] assms(2)
    by simp
  from a b c d f g show ?thesis by blast
qed

text \<open>
  The configurations of the sample worlds.
\<close>

lemma configKeys_opcao1:
  "option_of request_regular = ''opcao1''" "option_of request_high_deposit = ''opcao1''"
  "option_of request_few_bets = ''opcao1''"
  by (simp_all add: option_of_def request_regular_def request_high_deposit_def request_few_bets_def)

lemma resolved_fresh_down:
  "w k = env_origin_down \<Longrightarrow> k \<in> set (configKeys opt) \<Longrightarrow>
   config_at (resolved_configs jp w engine_fresh opt) k = VNull"
  by (simp add: config_at_resolved fresh_down)

lemma resolved_fresh_serves:
  "w k = env_origin_serves raw ty \<Longrightarrow> k \<in> set (configKeys opt) \<Longrightarrow>
   decode jp \<lparr>raw_value = raw, data_type = ty\<rparr> = Inr v \<Longrightarrow>
   config_at (resolved_configs jp w engine_fresh opt) k = v"
  by (simp add: config_at_resolved fresh_serves)

lemma thresholds_configs:
  "config_at (resolved_configs jp world_thresholds engine_fresh ''opcao1'')
     (key_deposito_minimo ''opcao1'') = VNum (Fin 30)"
  "config_at (resolved_configs jp world_thresholds engine_fresh ''opcao1'')
     (key_numero_apostas ''opcao1'') = VNum (Fin 10)"
  "config_at (resolved_configs jp world_thresholds engine_fresh ''opcao1'')
     (key_ggr_minimo ''opcao1'') = VNull"
  "config_at (resolved_configs jp world_thresholds engine_fresh ''opcao1'') key_prazo_dias = VNull"
  "config_at (resolved_configs jp world_thresholds engine_fresh ''opcao1'')
     key_deteccao_fraude_ativa = VNull"
      apply (rule resolved_fresh_serves[where raw="''30''" and ty="''float''"];
        simp add: world_thresholds_def configKeys_def decode_def parseFloat_30)
     apply (rule resolved_fresh_serves[where raw="''10''" and ty="''int''"];
        simp add: world_thresholds_def configKeys_def decode_def parseInt_10 key_defs)
    apply (rule resolved_fresh_down; simp add: world_thresholds_def configKeys_def key_defs)+
  done

lemma fraud_toggle_configs:
  "config_at (resolved_configs jp (world_fraud_toggle raw ty) engine_fresh ''opcao1'')
     (key_deposito_minimo ''opcao1'') = VNull"
  "config_at (resolved_configs jp (world_fraud_toggle raw ty) engine_fresh ''opcao1'')
     (key_numero_apostas ''opcao1'') = VNull"
  "config_at (resolved_configs jp (world_fraud_toggle raw ty) engine_fresh ''opcao1'')
     (key_ggr_minimo ''opcao1'') = VNull"
  "config_at (resolved_configs jp (world_fraud_toggle raw ty) engine_fresh ''opcao1'')
     key_prazo_dias = VNull"
  "decode jp \<lparr>raw_value = raw, data_type = ty\<rparr> = Inr v \<Longrightarrow>
   config_at (resolved_configs jp (world_fraud_toggle raw ty) engine_fresh ''opcao1'')
     key_deteccao_fraude_ativa = v"
      apply (rule resolved_fresh_down; simp add: world_fraud_toggle_def configKeys_def key_defs)+
  apply (rule resolved_fresh_serves[where raw=raw and ty=ty];
      simp add: world_fraud_toggle_def configKeys_def)
  done

lemma sample_ids:
  "\<not> ToPrimitive_throws (affiliateId request_regular)"
  "\<not> ToPrimitive_throws (userId request_regular)"
  "\<not> ToPrimitive_throws (affiliateId request_few_bets)"
  "\<not> ToPrimitive_throws (userId request_few_bets)"
  "\<not> ToPrimitive_throws (affiliateId request_high_deposit)"
  "\<not> ToPrimitive_throws (userId request_high_deposit)"
  by (simp_all add: request_regular_def request_few_bets_def request_high_deposit_def)

lemma sample_returns:
  "validateCPA JSON_parse_sample world engine_fresh request_regular clock_day_five
     = Inr (sample_run world request_regular)"
  "validateCPA JSON_parse_sample world engine_fresh request_few_bets clock_day_five
     = Inr (sample_run world request_few_bets)"
  "validateCPA JSON_parse_sample world engine_fresh request_high_deposit clock_day_five
     = Inr (sample_run world request_high_deposit)"
  by (simp_all add: sample_validate sample_ids)

lemma object_threshold_configs:
  "config_at (resolved_configs JSON_parse_sample world_object_threshold engine_fresh ''opcao1'')
     (key_deposito_minimo ''opcao1'') = VNum NaN"
  "config_at (resolved_configs JSON_parse_sample world_object_threshold engine_fresh ''opcao1'')
     (key_numero_apostas ''opcao1'') = VObj [(''toString'', VNum (Fin 1))]"
   apply (rule resolved_fresh_serves[where raw="''abc''" and ty="''int''"];
        simp add: world_object_threshold_def configKeys_def decode_def parseInt_abc)
  apply (rule resolved_fresh_serves[where raw="''{\"toString\":1}''" and ty="''json''"];
        simp add: world_object_threshold_def configKeys_def decode_def JSON_parse_sample_def
          key_defs)
  done

lemma object_threshold_throws:
  "rule_throws (resolved_configs JSON_parse_sample world_object_threshold engine_fresh ''opcao1'')
     request_regular"
  unfolding rule_throws_iff using object_threshold_configs
  by (simp add: configKeys_opcao1)

text \<open>
  The \<open>catch\<close> on two runs: a lookup that throws \<open>boom\<close>, and a bets threshold
  that is an object with a \<open>toString\<close> property, whose comparison throws.
\<close>

lemma validate_try_catches_samples:
  "fst (validateCPA_try getter_throwing engine_fresh request_regular clock_day_five)
       = error_result (VStr ''TEST_AFF_001'', VStr ''TEST_USER_001'', 432000000) ''boom''"
  "fst (sample_run world_object_threshold request_regular)
       = error_result (VStr ''TEST_AFF_001'', VStr ''TEST_USER_001'', 432000000)
           TypeError_primitive"
proof -
  let ?v = "validateCPA_try getter_throwing engine_fresh request_regular clock_day_five"
  let ?g = "engine_getter JSON_parse_sample world_object_threshold"
  let ?u = "sample_run world_object_threshold request_regular"
  let ?cfg = "resolved_configs JSON_parse_sample world_object_threshold engine_fresh
         (option_of request_regular)"
  have p: "?v = (fst ?v, snd ?v)" by simp
  have id: "(VStr ''TEST_AFF_001'', VStr ''TEST_USER_001'', 432000000)
      = (affiliateId request_regular, userId request_regular, now_id clock_day_five)"
    by (simp add: request_regular_def clock_day_five_def)
  note t = validate_try_catches[OF p refl id, THEN conjunct1]
  note s = validate_try_catches[OF sample_try[of world_object_threshold request_regular]
      refl id, THEN conjunct2, THEN conjunct1]
  have h: "fst (load_configs getter_throwing (configKeys (option_of request_regular))
                 engine_fresh Map.empty) = Inl ''boom''"
    by (simp add: configKeys_def getter_throwing_def)
  from t h show "fst ?v = error_result (VStr ''TEST_AFF_001'', VStr ''TEST_USER_001'', 432000000)
      ''boom''" by blast
  from validateCPA_load[of JSON_parse_sample world_object_threshold request_regular engine_fresh]
  have l: "fst (load_configs ?g (configKeys (option_of request_regular)) engine_fresh Map.empty)
      = Inr ?cfg" by auto
  have a: "apply_rules ?cfg request_regular clock_day_five = Inl TypeError_primitive"
    by (rule apply_rules_throws) (simp add: configKeys_opcao1 object_threshold_throws)
  from s l a show "fst ?u = error_result (VStr ''TEST_AFF_001'', VStr ''TEST_USER_001'', 432000000)
      TypeError_primitive" by blast
qed

subsection \<open>The verdict\<close>

text \<open>
  Claim C1, amended. Take a validation that returns, with the configurations it
  resolved: each of the six keys with what the lookup returned. Each of the four
  threshold criteria (deposit, bets, GGR, eligibility window) is evaluated exactly when
  its key resolved to a value other than \<open>null\<close>, and the fraud criterion exactly when
  the toggle resolved to a value that counts as true. The verdict is approved exactly
  when every criterion so guarded passes. It is \<open>error\<close> exactly when the comparison of
  a guarded threshold criterion throws, and rejected in every other case. A result
  other than \<open>error\<close> carries the configurations and one line for each criterion
  evaluated, and is approved exactly when each of them passed. When all keys resolved to
  \<open>null\<close> no criterion is evaluated and the verdict is approved.
\<close>

theorem verdict_is_conjunction:
  assumes "validateCPA jp w st req clk = Inr (r, st')"
    and "configs = resolved_configs jp w st (option_of req)"
  shows "(\<forall>k \<in> set (configKeys (option_of req)).
            config_at configs k = ret (getConfiguration jp st k (w k)))
     \<and> (result r = approved \<longleftrightarrow>
          (\<forall>c \<in> set all_criteria. criterion_guard configs req c
              \<longrightarrow> criterion_passes configs req clk c))
     \<and> (result r = error \<longleftrightarrow>
          (\<exists>c \<in> set all_criteria. criterion_guard configs req c
              \<and> criterion_throws configs req c))
     \<and> (result r \<noteq> approved \<and> result r \<noteq> error \<longrightarrow> result r = rejected)
     \<and> (result r \<noteq> error \<longrightarrow>
          configsUsed r = Some configs
          \<and> evaluated r = filter (criterion_guard configs req) all_criteria
          \<and> (result r = approved \<longleftrightarrow>
                (\<forall>c \<in> set (evaluated r). criterion_passes configs req clk c)))
     \<and> ((\<forall>k \<in> set (configKeys (option_of req)). config_at configs k = VNull) \<longrightarrow>
          evaluated r = [] \<and> result r = approved)"
proof -
  note v = validateCPA_verdict[OF validateCPA_Inr[OF assms(1)], folded assms(2)]
  have k: "\<forall>k \<in> set (configKeys (option_of req)).
            config_at configs k = ret (getConfiguration jp st k (w k))"
    unfolding assms(2) by (simp add: config_at_resolved)
  have e: "result r = error \<longleftrightarrow>
          (\<exists>c \<in> set all_criteria. criterion_guard configs req c \<and> criterion_throws configs req c)"
    unfolding v(1) by (simp add: rule_throws_def list_ex_iff)
  have n: "result r \<noteq> approved \<and> result r \<noteq> error \<longrightarrow> result r = rejected"
    by (cases "result r") simp_all
  have p: "configsUsed r = Some configs
          \<and> evaluated r = filter (criterion_guard configs req) all_criteria
          \<and> (result r = approved \<longleftrightarrow>
                (\<forall>c \<in> set (evaluated r). criterion_passes configs req clk c))"
    if h: "result r \<noteq> error"
  proof -
    from v(3)[OF h] have 1: "configsUsed r = Some configs"
      and 2: "evaluated r = filter (criterion_guard configs req) all_criteria" by simp_all
    from v(2) have "result r = approved \<longleftrightarrow>
                (\<forall>c \<in> set (evaluated r). criterion_passes configs req clk c)"
      unfolding 2 by auto
    with 1 2 show ?thesis by simp
  qed
  have z: "evaluated r = [] \<and> result r = approved"
    if h: "\<forall>k \<in> set (configKeys (option_of req)). config_at configs k = VNull"
  proof -
    from h have g: "\<not> criterion_guard configs req c" for c
      by (cases c) (simp_all add: configKeys_def)
    from g have a: "result r = approved" unfolding v(2) by simp
    then have "result r \<noteq> error" by simp
    from v(3)[OF this] g have "evaluated r = []" by simp
    with a show ?thesis by simp
  qed
  from k v(2) e n p z show ?thesis by blast
qed

text \<open>
  The amended C1 on four runs: thresholds 30 and 10 with deposit 50 and 15 bets
  (approved, two criteria evaluated), the same with 5 bets (rejected), a total
  outage (approved, nothing evaluated), and a bets threshold whose comparison throws
  (error).
\<close>

theorem verdict_is_conjunction_witness:
  "validateCPA JSON_parse_sample world_thresholds engine_fresh request_regular clock_day_five
     = Inr (sample_run world_thresholds request_regular)
   \<and> set (evaluated (fst (sample_run world_thresholds request_regular))) = {Deposit, Bets}
   \<and> result (fst (sample_run world_thresholds request_regular)) = approved
   \<and> result (fst (sample_run world_thresholds request_few_bets)) = rejected
   \<and> evaluated (fst (sample_run world_outage request_high_deposit)) = []
   \<and> result (fst (sample_run world_outage request_high_deposit)) = approved
   \<and> result (fst (sample_run world_object_threshold request_regular)) = error"
proof -
  let ?P = JSON_parse_sample
  let ?v1 = "sample_run world_thresholds request_regular"
  let ?v2 = "sample_run world_thresholds request_few_bets"
  let ?v3 = "sample_run world_outage request_high_deposit"
  let ?v4 = "sample_run world_object_threshold request_regular"
  let ?c1 = "resolved_configs ?P world_thresholds engine_fresh ''opcao1''"
  let ?c3 = "resolved_configs ?P world_outage engine_fresh ''opcao1''"
  let ?c4 = "resolved_configs ?P world_object_threshold engine_fresh ''opcao1''"
  have p1: "validateCPA ?P world_thresholds engine_fresh request_regular clock_day_five
              = Inr (fst ?v1, snd ?v1)"
    and p2: "validateCPA ?P world_thresholds engine_fresh request_few_bets clock_day_five
              = Inr (fst ?v2, snd ?v2)"
    and p3: "validateCPA ?P world_outage engine_fresh request_high_deposit clock_day_five
              = Inr (fst ?v3, snd ?v3)"
    and p4: "validateCPA ?P world_object_threshold engine_fresh request_regular clock_day_five
              = Inr (fst ?v4, snd ?v4)"
    by (simp_all add: sample_returns)
  have q1: "?c1 = resolved_configs ?P world_thresholds engine_fresh (option_of request_regular)"
    and q2: "?c1 = resolved_configs ?P world_thresholds engine_fresh (option_of request_few_bets)"
    and q3: "?c3 = resolved_configs ?P world_outage engine_fresh (option_of request_high_deposit)"
    and q4: "?c4 = resolved_configs ?P world_object_threshold engine_fresh
                     (option_of request_regular)"
    by (simp_all add: configKeys_opcao1)
  note t1 = verdict_is_conjunction[OF p1 q1]
  note t2 = verdict_is_conjunction[OF p2 q2]
  note t3 = verdict_is_conjunction[OF p3 q3]
  note t4 = verdict_is_conjunction[OF p4 q4]
  note t1_approved = t1[THEN conjunct2, THEN conjunct1]
  note t1_evaluated = t1[THEN conjunct2, THEN conjunct2, THEN conjunct2, THEN conjunct2,
      THEN conjunct1]
  note t2_approved = t2[THEN conjunct2, THEN conjunct1]
  note t2_error = t2[THEN conjunct2, THEN conjunct2, THEN conjunct1]
  note t2_rejected = t2[THEN conjunct2, THEN conjunct2, THEN conjunct2, THEN conjunct1]
  note t3_absent = t3[THEN conjunct2, THEN conjunct2, THEN conjunct2, THEN conjunct2,
      THEN conjunct2]
  note t4_error = t4[THEN conjunct2, THEN conjunct2, THEN conjunct1]
  note tc = thresholds_configs[of ?P]
  have f1: "depositAmount request_regular = Fin 50" "betCount request_regular = Fin 15"
    and f2: "betCount request_few_bets = Fin 5"
    by (simp_all add: request_regular_def request_few_bets_def)
  have g1: "criterion_guard ?c1 request_regular c \<longleftrightarrow> c \<in> {Deposit, Bets}" for c
    using tc by (cases c) (simp_all add: configKeys_opcao1)
  have ps1: "criterion_passes ?c1 request_regular clock_day_five Deposit"
    "criterion_passes ?c1 request_regular clock_day_five Bets"
    using tc by (simp_all add: configKeys_opcao1 f1 js_ge_def num_ge_def)
  have "\<forall>c \<in> set all_criteria. criterion_guard ?c1 request_regular c
      \<longrightarrow> criterion_passes ?c1 request_regular clock_day_five c"
  proof (intro ballI impI)
    fix c assume "criterion_guard ?c1 request_regular c"
    with g1 have "c = Deposit \<or> c = Bets" by simp
    with ps1 show "criterion_passes ?c1 request_regular clock_day_five c" by (elim disjE) simp_all
  qed
  with t1_approved have r1: "result (fst ?v1) = approved" by (rule iffD2)
  then have "result (fst ?v1) \<noteq> error" by simp
  with t1_evaluated
  have "evaluated (fst ?v1) = filter (criterion_guard ?c1 request_regular) all_criteria"
    by (simp del: criterion_guard.simps)
  then have s1: "set (evaluated (fst ?v1)) = {Deposit, Bets}"
    by (simp add: all_criteria_def g1 del: criterion_guard.simps)
  have g2: "criterion_guard ?c1 request_few_bets Bets"
    using tc by (simp add: configKeys_opcao1)
  have n2: "\<not> criterion_passes ?c1 request_few_bets clock_day_five Bets"
    using tc by (simp add: configKeys_opcao1 f2 js_ge_def num_ge_def)
  have nt2: "\<not> criterion_throws ?c1 request_few_bets c" for c
    using tc by (cases c) (simp_all add: configKeys_opcao1)
  have "Bets \<in> set all_criteria" by (simp add: all_criteria_def)
  with g2 n2 have "\<not> (\<forall>c \<in> set all_criteria. criterion_guard ?c1 request_few_bets c
      \<longrightarrow> criterion_passes ?c1 request_few_bets clock_day_five c)"
    by blast
  with t2_approved have a2: "result (fst ?v2) \<noteq> approved" by simp
  from nt2 have "\<not> (\<exists>c \<in> set all_criteria. criterion_guard ?c1 request_few_bets c
      \<and> criterion_throws ?c1 request_few_bets c)" by blast
  with t2_error have e2: "result (fst ?v2) \<noteq> error" by simp
  from t2_rejected a2 e2 have r2: "result (fst ?v2) = rejected" by simp
  have "\<forall>k \<in> set (configKeys (option_of request_high_deposit)). config_at ?c3 k = VNull"
    by (simp add: configKeys_opcao1 resolved_fresh_down world_outage_def)
  with t3_absent have r3: "evaluated (fst ?v3) = [] \<and> result (fst ?v3) = approved"
    by (rule mp)
  have "criterion_guard ?c4 request_regular Bets \<and> criterion_throws ?c4 request_regular Bets"
    using object_threshold_configs by (simp add: configKeys_opcao1)
  moreover have "Bets \<in> set all_criteria" by (simp add: all_criteria_def)
  ultimately have "\<exists>c \<in> set all_criteria. criterion_guard ?c4 request_regular c
      \<and> criterion_throws ?c4 request_regular c"
    by blast
  with t4_error have r4: "result (fst ?v4) = error" by (rule iffD2)
  from s1 r1 r2 r3 r4 sample_returns(1) show ?thesis by simp
qed

text \<open>
  Claim C1 as stated fails where the fraud toggle resolved to \<open>false\<close>: that is a
  present value, yet the fraud criterion is not evaluated, and a request that the fraud
  check would fail is approved.
\<close>

theorem verdict_as_stated_counterexample:
  "validateCPA JSON_parse_sample (world_fraud_toggle ''false'' ''bool'') engine_fresh
       request_high_deposit clock_day_five
     = Inr (sample_run (world_fraud_toggle ''false'' ''bool'') request_high_deposit)
   \<and> \<not> (result (fst (sample_run (world_fraud_toggle ''false'' ''bool'') request_high_deposit)) = approved
       \<longleftrightarrow> approved_as_stated
             (configs_of (fst (sample_run (world_fraud_toggle ''false'' ''bool'') request_high_deposit)))
             request_high_deposit clock_day_five)"
proof -
  let ?w = "world_fraud_toggle ''false'' ''bool''"
  let ?v = "sample_run ?w request_high_deposit"
  let ?cfg = "resolved_configs JSON_parse_sample ?w engine_fresh ''opcao1''"
  note v = validateCPA_verdict[OF sample_try[of ?w request_high_deposit],
      unfolded configKeys_opcao1]
  have d: "decode JSON_parse_sample \<lparr>raw_value = ''false'', data_type = ''bool''\<rparr>
             = Inr (VBool False)"
    by (simp add: decode_def toLowerCase_def)
  note c = fraud_toggle_configs(1-4)[of JSON_parse_sample "''false''" "''bool''"]
    fraud_toggle_configs(5)[OF d]
  have g: "\<not> criterion_guard ?cfg request_high_deposit c" for c
    using c by (cases c) (simp_all add: configKeys_opcao1)
  from g have a: "result (fst ?v) = approved" unfolding v(2) by simp
  then have "result (fst ?v) \<noteq> error" by simp
  from v(3)[OF this] have co: "configs_of (fst ?v) = ?cfg" by (simp add: configs_of_def)
  have b: "\<not> approved_as_stated (configs_of (fst ?v)) request_high_deposit clock_day_five"
    unfolding co using c high_deposit_suspicious
    by (simp add: approved_as_stated_def all_criteria_def evaluated_as_stated_def
        configKeys_opcao1)
  from a b sample_returns(3) show ?thesis by simp
qed

subsection \<open>The fraud toggle\<close>

text \<open>
  Claim C7, amended. In a validation that returns a result other than \<open>error\<close>, the
  fraud criterion is evaluated exactly when the fraud-detection toggle resolved to a
  value that counts as true in a condition (\<open>true\<close>, a number other than 0 and NaN, a
  non-empty string, an array or object); for a toggle that is a boolean, exactly when
  it is \<open>true\<close>. The error object lists no criterion. When the fraud criterion is
  evaluated, a suspicious verdict of \<open>detectFraud\<close> is a failed entry of the results
  and the validation is rejected; and with a toggle that counts as true and a suspicious
  verdict no validation is approved.
\<close>

theorem fraud_toggle_truthy:
  assumes "validateCPA jp w st req clk = Inr (r, st')"
    and "toggle = ret (getConfiguration jp st key_deteccao_fraude_ativa
                         (w key_deteccao_fraude_ativa))"
  shows "(result r \<noteq> error \<longrightarrow>
           config_at (configs_of r) key_deteccao_fraude_ativa = toggle
           \<and> (Fraud \<in> set (evaluated r) \<longleftrightarrow> truthy toggle)
           \<and> (\<forall>b. toggle = VBool b \<longrightarrow> (Fraud \<in> set (evaluated r) \<longleftrightarrow> b)))
     \<and> (result r = error \<longrightarrow> Fraud \<notin> set (evaluated r))
     \<and> (Fraud \<in> set (evaluated r) \<and> \<not> valid (detectFraud (now_fraud clk) req) \<longrightarrow>
          result r = rejected
          \<and> (FraudRule (message (detectFraud (now_fraud clk) req)), False)
              \<in> set (individualResults r))
     \<and> (truthy toggle \<and> \<not> valid (detectFraud (now_fraud clk) req) \<longrightarrow> result r \<noteq> approved)"
proof -
  let ?cfg = "resolved_configs jp w st (option_of req)"
  let ?out = "rule_entries ?cfg req clk Deposit @ rule_entries ?cfg req clk Bets
          @ rule_entries ?cfg req clk GGR @ rule_entries ?cfg req clk Window
          @ rule_entries ?cfg req clk Fraud"
  note v = validateCPA_verdict[OF validateCPA_Inr[OF assms(1)]]
  have t: "config_at ?cfg key_deteccao_fraude_ativa = toggle"
    unfolding assms(2) by (rule config_at_resolved) (simp add: configKeys_def)
  have g: "criterion_guard ?cfg req Fraud \<longleftrightarrow> truthy toggle" by (simp add: t)
  have a: "config_at (configs_of r) key_deteccao_fraude_ativa = toggle
           \<and> (Fraud \<in> set (evaluated r) \<longleftrightarrow> truthy toggle)
           \<and> (\<forall>b. toggle = VBool b \<longrightarrow> (Fraud \<in> set (evaluated r) \<longleftrightarrow> b))"
    if h: "result r \<noteq> error"
  proof -
    from v(3)[OF h] have 1: "configsUsed r = Some ?cfg"
      and 2: "evaluated r = filter (criterion_guard ?cfg req) all_criteria" by simp_all
    from 1 t have 3: "config_at (configs_of r) key_deteccao_fraude_ativa = toggle"
      by (simp add: configs_of_def)
    have 4: "Fraud \<in> set (evaluated r) \<longleftrightarrow> truthy toggle"
      unfolding 2 using g by (simp add: all_criteria_def)
    from 4 have 5: "\<forall>b. toggle = VBool b \<longrightarrow> (Fraud \<in> set (evaluated r) \<longleftrightarrow> b)"
      by simp
    from 3 4 5 show ?thesis by blast
  qed
  have b: "Fraud \<notin> set (evaluated r)" if "result r = error"
    using v(4)[OF that] by simp
  have c: "result r = rejected
          \<and> (FraudRule (message (detectFraud (now_fraud clk) req)), False)
              \<in> set (individualResults r)"
    if h: "Fraud \<in> set (evaluated r) \<and> \<not> valid (detectFraud (now_fraud clk) req)"
  proof -
    from h b have ne: "result r \<noteq> error" by blast
    with v(1) have nt: "\<not> rule_throws ?cfg req" by simp
    from a[OF ne] h have tr: "truthy toggle" by simp
    from h have np: "\<not> criterion_passes ?cfg req clk Fraud" by simp
    from tr g np have "\<not> (\<forall>c \<in> set all_criteria. criterion_guard ?cfg req c
                \<longrightarrow> criterion_passes ?cfg req clk c)"
      by (auto simp: all_criteria_def)
    with v(2) have "result r \<noteq> approved" by simp
    with ne have 1: "result r = rejected" by (cases "result r") simp_all
    have "(False, FraudRule (message (detectFraud (now_fraud clk) req))) \<in> set ?out"
      using tr g h by (simp add: rule_entries_def)
    then have 2: "(FraudRule (message (detectFraud (now_fraud clk) req)), False)
              \<in> set (individualResults r)"
      unfolding validateCPA_returns(3)[OF validateCPA_Inr[OF assms(1)] nt refl] by (rule in_zip_swapped)
    from 1 2 show ?thesis by simp
  qed
  have d: "result r \<noteq> approved"
    if h: "truthy toggle \<and> \<not> valid (detectFraud (now_fraud clk) req)"
  proof -
    from h g have "\<not> (\<forall>c \<in> set all_criteria. criterion_guard ?cfg req c
                \<longrightarrow> criterion_passes ?cfg req clk c)"
      by (auto simp: all_criteria_def)
    with v(2) show ?thesis by simp
  qed
  from a b c d show ?thesis by blast
qed

text \<open>
  The amended C7 on two runs of the self-test's fraud scenario: with the toggle
  \<open>true\<close> the criterion is evaluated and the request rejected; with the toggle
  \<open>false\<close> it is not evaluated.
\<close>

theorem fraud_toggle_truthy_witness:
  "validateCPA JSON_parse_sample (world_fraud_toggle ''true'' ''bool'') engine_fresh
       request_high_deposit clock_day_five
     = Inr (sample_run (world_fraud_toggle ''true'' ''bool'') request_high_deposit)
   \<and> result (fst (sample_run (world_fraud_toggle ''true'' ''bool'') request_high_deposit)) \<noteq> error
   \<and> config_at (configs_of (fst (sample_run (world_fraud_toggle ''true'' ''bool'') request_high_deposit))) key_deteccao_fraude_ativa = VBool True
   \<and> Fraud \<in> set (evaluated (fst (sample_run (world_fraud_toggle ''true'' ''bool'') request_high_deposit)))
   \<and> \<not> valid (detectFraud (now_fraud clock_day_five) request_high_deposit)
   \<and> result (fst (sample_run (world_fraud_toggle ''true'' ''bool'') request_high_deposit)) = rejected
   \<and> result (fst (sample_run (world_fraud_toggle ''false'' ''bool'') request_high_deposit)) \<noteq> error
   \<and> Fraud \<notin> set (evaluated (fst (sample_run (world_fraud_toggle ''false'' ''bool'') request_high_deposit)))"
proof -
  let ?P = JSON_parse_sample
  let ?kf = key_deteccao_fraude_ativa
  let ?v = "sample_run (world_fraud_toggle ''true'' ''bool'') request_high_deposit"
  let ?u = "sample_run (world_fraud_toggle ''false'' ''bool'') request_high_deposit"
  have p: "validateCPA ?P (world_fraud_toggle ''true'' ''bool'') engine_fresh
             request_high_deposit clock_day_five = Inr (fst ?v, snd ?v)"
    and q: "validateCPA ?P (world_fraud_toggle ''false'' ''bool'') engine_fresh
             request_high_deposit clock_day_five = Inr (fst ?u, snd ?u)"
    by (simp_all add: sample_returns)
  have g: "VBool True = ret (getConfiguration ?P engine_fresh ?kf
                 (world_fraud_toggle ''true'' ''bool'' ?kf))"
    by (simp add: world_fraud_toggle_def fresh_serves decode_def toLowerCase_true)
  have h: "VBool False = ret (getConfiguration ?P engine_fresh ?kf
                 (world_fraud_toggle ''false'' ''bool'' ?kf))"
    by (simp add: world_fraud_toggle_def fresh_serves decode_def toLowerCase_def)
  note t = fraud_toggle_truthy[OF p g]
  note s = fraud_toggle_truthy[OF q h]
  note t_ok = t[THEN conjunct1]
  note t_fail = t[THEN conjunct2, THEN conjunct2, THEN conjunct1]
  note s_ok = s[THEN conjunct1]
  have dt: "decode ?P \<lparr>raw_value = ''true'', data_type = ''bool''\<rparr> = Inr (VBool True)"
    by (simp add: decode_def toLowerCase_true)
  have df: "decode ?P \<lparr>raw_value = ''false'', data_type = ''bool''\<rparr> = Inr (VBool False)"
    by (simp add: decode_def toLowerCase_def)
  note ct = fraud_toggle_configs(1-4)[of ?P "''true''" "''bool''"] fraud_toggle_configs(5)[OF dt]
  note cf = fraud_toggle_configs(1-4)[of ?P "''false''" "''bool''"] fraud_toggle_configs(5)[OF df]
  have "\<not> rule_throws (resolved_configs ?P (world_fraud_toggle ''true'' ''bool'') engine_fresh
            ''opcao1'') request_high_deposit"
    unfolding rule_throws_iff using ct by (simp add: configKeys_opcao1)
  with validateCPA_verdict(1)[OF validateCPA_Inr[OF p], unfolded configKeys_opcao1]
  have 0: "result (fst ?v) \<noteq> error" by simp
  have "\<not> rule_throws (resolved_configs ?P (world_fraud_toggle ''false'' ''bool'') engine_fresh
            ''opcao1'') request_high_deposit"
    unfolding rule_throws_iff using cf by (simp add: configKeys_opcao1)
  with validateCPA_verdict(1)[OF validateCPA_Inr[OF q], unfolded configKeys_opcao1]
  have 6: "result (fst ?u) \<noteq> error" by simp
  from t_ok 0 have 1: "config_at (configs_of (fst ?v)) ?kf = VBool True"
    and 2: "Fraud \<in> set (evaluated (fst ?v))" by simp_all
  have 3: "\<not> valid (detectFraud (now_fraud clock_day_five) request_high_deposit)"
    by (rule high_deposit_suspicious)
  from t_fail 2 3 have 4: "result (fst ?v) = rejected" by simp
  from s_ok 6 have 5: "Fraud \<notin> set (evaluated (fst ?u))" by simp
  from 0 1 2 3 4 5 6 sample_returns(3) show ?thesis by simp
qed

text \<open>
  Claim C7 as stated fails where the toggle is declared \<open>int\<close> with value \<open>"1"\<close>:
  it resolves to the number 1, not the boolean \<open>true\<close>, and the fraud criterion is
  evaluated.
\<close>

theorem fraud_toggle_boolean_counterexample:
  "validateCPA JSON_parse_sample (world_fraud_toggle ''1'' ''int'') engine_fresh
       request_regular clock_day_five
     = Inr (sample_run (world_fraud_toggle ''1'' ''int'') request_regular)
   \<and> \<not> (Fraud \<in> set (evaluated (fst (sample_run (world_fraud_toggle ''1'' ''int'') request_regular)))
       \<longleftrightarrow> config_at (configs_of (fst (sample_run (world_fraud_toggle ''1'' ''int'') request_regular))) key_deteccao_fraude_ativa = VBool True)"
proof -
  let ?w = "world_fraud_toggle ''1'' ''int''"
  let ?v = "sample_run ?w request_regular"
  let ?cfg = "resolved_configs JSON_parse_sample ?w engine_fresh ''opcao1''"
  note v = validateCPA_verdict[OF sample_try[of ?w request_regular], unfolded configKeys_opcao1]
  have d: "decode JSON_parse_sample \<lparr>raw_value = ''1'', data_type = ''int''\<rparr>
             = Inr (VNum (Fin 1))"
    by (simp add: decode_def parseInt_1)
  note c = fraud_toggle_configs(1-4)[of JSON_parse_sample "''1''" "''int''"]
    fraud_toggle_configs(5)[OF d]
  have nt: "\<not> rule_throws ?cfg request_regular"
    unfolding rule_throws_iff using c by (simp add: configKeys_opcao1)
  with v(1) have ne: "result (fst ?v) \<noteq> error" by simp
  from v(3)[OF ne] have co: "configs_of (fst ?v) = ?cfg"
    and ev: "evaluated (fst ?v) = filter (criterion_guard ?cfg request_regular) all_criteria"
    by (simp_all add: configs_of_def)
  have a: "Fraud \<in> set (evaluated (fst ?v))"
    unfolding ev using c by (simp add: all_criteria_def)
  have b: "config_at (configs_of (fst ?v)) key_deteccao_fraude_ativa \<noteq> VBool True"
    unfolding co using c by simp
  from a b sample_returns(1) show ?thesis by simp
qed

subsection \<open>A threshold that is not a number\<close>




subsection \<open>A throw before the try statement\<close>

text \<open>
  Claim C5 fails on this input. The \<open>try\<close> statement catches every throw of a lookup
  and of a comparison (\<open>validate_try_catches\<close>), but \<open>validationId\<close> is built before
  it: with a \<open>userId\<close> that is an object with a \<open>toString\<close> property, as the request
  body \<open>{"userId": {"toString": 1}, ...}\<close> gives, the template throws a TypeError and
  \<open>validateCPA\<close> raises it instead of returning the error object.
\<close>

theorem validate_raises_before_try:
  "validateCPA JSON_parse_sample world_thresholds engine_fresh request_object_user
     clock_day_five = Inl TypeError_primitive"
  by (simp add: validateCPA_def validateCPA_with_def request_object_user_def
      request_regular_def)

end
